theory Spec2Isabelle
  imports Main
begin

section \<open>The migration engine of db/migration/new_migrator.go\<close>

text \<open>
  The migrator talks to a PostgreSQL database through Go's \<open>database/sql\<close>. The model
  passes the connection explicitly: every method takes the connection and returns it
  together with its Go results. An \<open>error\<close> result is an \<open>error option\<close>
  (\<open>None\<close> is Go's \<open>nil\<close>).
\<close>

subsection \<open>Constants\<close>

definition postgresTableName :: string where
  "postgresTableName = ''migration_version''"

definition noTransaction :: string where
  "noTransaction = ''NO_TRANSACTION;''"

definition oldMigrationLastVersion :: int where
  "oldMigrationLastVersion = 189"

definition newMigrationStartVersion :: int where
  "newMigrationStartVersion = 1510262030"

text \<open>The SQL texts the migrator sends, as the program computes them.\<close>

definition createTableSql :: string where
  "createTableSql =
     ''CREATE TABLE IF NOT EXISTS '' @ postgresTableName @
     '' (version varchar(255) not null primary key)''"

definition currentVersionSql :: string where
  "currentVersionSql = ''SELECT version from '' @ postgresTableName @ '' ORDER BY DESC''"

definition existsSql :: string where
  "existsSql =
     ''SELECT EXISTS ( SELECT 1 FROM information_schema.tables WHERE table_name = 'migration_version')''"

definition selectVersionSql :: string where
  "selectVersionSql = ''SELECT version FROM migration_version''"

definition dropTableSql :: string where
  "dropTableSql = ''DROP TABLE IF EXISTS migration_version''"

subsection \<open>Errors, driver calls, the connection\<close>

datatype error =
    ConnFault nat
      \<comment> \<open>the driver reports a connection or I/O fault; the number is the call's position\<close>
  | StatementRejected string
      \<comment> \<open>the database rejects the statement\<close>
  | UndefinedTable
      \<comment> \<open>the queried relation does not exist\<close>
  | ErrNoRows
      \<comment> \<open>\<open>sql.ErrNoRows\<close>: \<open>Scan\<close> on a \<open>QueryRow\<close> that found no row\<close>
  | ScanError
      \<comment> \<open>\<open>Scan\<close> cannot convert the column to the destination\<close>
  | AssetNotFound string
      \<comment> \<open>the error of \<open>Asset\<close> for an unknown name\<close>
  | MustUpgrade int int
      \<comment> \<open>\<open>fmt.Errorf("Must upgrade from db version %d (concourse 3.6.0), current db version: %d", ...)\<close>\<close>
  | IndexOutOfRange
      \<comment> \<open>the run-time panic of an index expression out of range\<close>

datatype call =
    Exec string
  | QueryRow string
  | Begin
  | TxExec string
  | Commit
  | Rollback
  | LockAcquire
      \<comment> \<open>\<open>lockFactory.Acquire\<close>, called only in the commented-out \<open>openWithLock\<close>\<close>
  | LockRelease
      \<comment> \<open>\<open>newLock.Release\<close>, called only in the commented-out \<open>openWithLock\<close>\<close>

text \<open>
  A value of a column as the driver hands it over: a boolean, an integer (\<open>int64\<close> for
  PostgreSQL's integer types), text (\<open>varchar\<close>, and \<open>numeric\<close>, which the driver
  gives as its decimal text) or \<open>NULL\<close>.
\<close>

datatype val = VBool bool | VInt int | VText string | VNull

text \<open>
  The database, as far as the migrator can see it: the table \<open>migration_version\<close>
  (\<open>None\<close> when it does not exist, otherwise the \<open>version\<close> column of its rows, an
  integer in the legacy table and a \<open>varchar(255)\<close> in the table the migrator
  creates), and the rest of the schema and data, of a type \<open>'u\<close> left open. What a
  statement does to the database is a parameter \<open>sem\<close>, on the whole database, the
  version table included: \<open>sem s st = None\<close> when the database rejects statement \<open>s\<close>
  in state \<open>st\<close>.
\<close>

type_synonym 'u store = "val list option \<times> 'u"

type_synonym 'u sql = "string \<Rightarrow> 'u store \<Rightarrow> 'u store option"

text \<open>
  The connection \<open>*sql.DB\<close>: the committed database, the calls made so far with the
  error each returned (oldest first), and the positions of the calls at which the
  driver will report a fault.
\<close>

record 'u conn =
  committed :: "'u store"
  trace :: "(call \<times> error option) list"
  faults :: "nat list"

definition faulty :: "'u conn \<Rightarrow> bool" where
  "faulty w = (length (trace w) \<in> set (faults w))"

definition logged :: "call \<Rightarrow> error option \<Rightarrow> 'u conn \<Rightarrow> 'u conn" where
  "logged c r w = w\<lparr>trace := trace w @ [(c, r)]\<rparr>"

text \<open>
  What PostgreSQL does with a statement. The three statements on \<open>migration_version\<close>
  that the migrator sends through \<open>Exec\<close> are interpreted here; \<open>ORDER BY DESC\<close> has no
  sort key, so \<open>currentVersionSql\<close> is a syntax error. Every other statement is left to
  \<open>sem\<close>.
\<close>

definition sql_exec :: "'u sql \<Rightarrow> string \<Rightarrow> 'u store \<Rightarrow> error + 'u store" where
  "sql_exec sem s st =
     (if s = createTableSql then
        Inr (case fst st of None \<Rightarrow> Some [] | Some rows \<Rightarrow> Some rows, snd st)
      else if s = dropTableSql then Inr (None, snd st)
      else if s = currentVersionSql then Inl (StatementRejected s)
      else case sem s st of
             None \<Rightarrow> Inl (StatementRejected s)
           | Some st' \<Rightarrow> Inr st')"

definition sql_query :: "string \<Rightarrow> 'u store \<Rightarrow> error + val" where
  "sql_query s st =
     (if s = existsSql then Inr (VBool (fst st \<noteq> None))
      else if s = selectVersionSql then
        (case fst st of
           None \<Rightarrow> Inl UndefinedTable
         | Some [] \<Rightarrow> Inl ErrNoRows
         | Some (v # _) \<Rightarrow> Inr v)
      else Inl (StatementRejected s))"

definition db_Exec :: "'u sql \<Rightarrow> string \<Rightarrow> 'u conn \<Rightarrow> error option \<times> 'u conn" where
  "db_Exec sem s w =
     (if faulty w then
        (Some (ConnFault (length (trace w))),
         logged (Exec s) (Some (ConnFault (length (trace w)))) w)
      else case sql_exec sem s (committed w) of
             Inl e \<Rightarrow> (Some e, logged (Exec s) (Some e) w)
           | Inr st \<Rightarrow> (None, logged (Exec s) None (w\<lparr>committed := st\<rparr>)))"

definition db_QueryRow :: "string \<Rightarrow> 'u conn \<Rightarrow> (error + val) \<times> 'u conn" where
  "db_QueryRow s w =
     (if faulty w then
        (Inl (ConnFault (length (trace w))),
         logged (QueryRow s) (Some (ConnFault (length (trace w)))) w)
      else case sql_query s (committed w) of
             Inl e \<Rightarrow> (Inl e, logged (QueryRow s) (Some e) w)
           | Inr v \<Rightarrow> (Inr v, logged (QueryRow s) None w))"

text \<open>
  A transaction \<open>*sql.Tx\<close> is a working copy of the database. Its statements change the
  copy; \<open>Commit\<close> makes the copy the committed database; \<open>Rollback\<close>, a failed
  \<open>Commit\<close> and a failed \<open>Rollback\<close> leave the committed database as it was.
\<close>

definition db_Begin :: "'u conn \<Rightarrow> (error + 'u store) \<times> 'u conn" where
  "db_Begin w =
     (if faulty w then
        (Inl (ConnFault (length (trace w))),
         logged Begin (Some (ConnFault (length (trace w)))) w)
      else (Inr (committed w), logged Begin None w))"

definition tx_Exec ::
  "'u sql \<Rightarrow> string \<Rightarrow> 'u store \<Rightarrow> 'u conn \<Rightarrow> error option \<times> 'u store \<times> 'u conn" where
  "tx_Exec sem s tx w =
     (if faulty w then
        (Some (ConnFault (length (trace w))), tx,
         logged (TxExec s) (Some (ConnFault (length (trace w)))) w)
      else case sql_exec sem s tx of
             Inl e \<Rightarrow> (Some e, tx, logged (TxExec s) (Some e) w)
           | Inr tx' \<Rightarrow> (None, tx', logged (TxExec s) None w))"

definition tx_Commit :: "'u store \<Rightarrow> 'u conn \<Rightarrow> error option \<times> 'u conn" where
  "tx_Commit tx w =
     (if faulty w then
        (Some (ConnFault (length (trace w))),
         logged Commit (Some (ConnFault (length (trace w)))) w)
      else (None, logged Commit None (w\<lparr>committed := tx\<rparr>)))"

definition tx_Rollback :: "'u store \<Rightarrow> 'u conn \<Rightarrow> error option \<times> 'u conn" where
  "tx_Rollback tx w =
     (if faulty w then
        (Some (ConnFault (length (trace w))),
         logged Rollback (Some (ConnFault (length (trace w)))) w)
      else (None, logged Rollback None w))"

subsection \<open>Scanning a row\<close>

definition is_digit :: "char \<Rightarrow> bool" where
  "is_digit c = (c \<in> set ''0123456789'')"

definition decimal :: "string \<Rightarrow> int" where
  "decimal ds = foldl (\<lambda>n c. 10 * n + (of_char c - 48)) 0 ds"

text \<open>
  \<open>strconv.ParseInt(s, 10, 64)\<close>: an optional sign, then decimal digits, at least one;
  the value must fit a signed integer of 64 bits. Go's \<open>int\<close> is taken to have 64 bits.
\<close>

definition strconv_ParseInt :: "string \<Rightarrow> error + int" where
  "strconv_ParseInt s =
     (case (case s of
              [] \<Rightarrow> (False, [])
            | c # cs \<Rightarrow>
                if c = CHR ''-'' then (True, cs)
                else if c = CHR ''+'' then (False, cs)
                else (False, s)) of
        (neg, ds) \<Rightarrow>
          if ds = [] \<or> \<not> list_all is_digit ds then Inl ScanError
          else if neg then
            (if decimal ds \<le> 9223372036854775808 then Inr (- decimal ds) else Inl ScanError)
          else
            (if decimal ds < 9223372036854775808 then Inr (decimal ds) else Inl ScanError))"

text \<open>
  \<open>Row.Scan\<close> into an \<open>int\<close> and into a \<open>bool\<close>: the error of the query if it had
  one, otherwise the conversion \<open>database/sql\<close> makes. For an \<open>int\<close> the value is
  written as text and parsed by \<open>strconv.ParseInt\<close>, so \<open>NULL\<close>, a boolean, text
  that is no number and a number out of range all fail. For a \<open>bool\<close> the integers 0
  and 1 and the texts of \<open>strconv.ParseBool\<close> convert.
\<close>

definition Scan_int :: "error + val \<Rightarrow> error + int" where
  "Scan_int row =
     (case row of
        Inl err \<Rightarrow> Inl err
      | Inr VNull \<Rightarrow> Inl ScanError
      | Inr (VBool _) \<Rightarrow> Inl ScanError
      | Inr (VInt i) \<Rightarrow>
          if - 9223372036854775808 \<le> i \<and> i < 9223372036854775808 then Inr i
          else Inl ScanError
      | Inr (VText s) \<Rightarrow> strconv_ParseInt s)"

definition Scan_bool :: "error + val \<Rightarrow> error + bool" where
  "Scan_bool row =
     (case row of
        Inl err \<Rightarrow> Inl err
      | Inr VNull \<Rightarrow> Inl ScanError
      | Inr (VBool b) \<Rightarrow> Inr b
      | Inr (VInt i) \<Rightarrow>
          if i = 1 then Inr True else if i = 0 then Inr False else Inl ScanError
      | Inr (VText s) \<Rightarrow>
          if s \<in> set [''1'', ''t'', ''T'', ''TRUE'', ''true'', ''True''] then Inr True
          else if s \<in> set [''0'', ''f'', ''F'', ''FALSE'', ''false'', ''False''] then Inr False
          else Inl ScanError)"

subsection \<open>The migrator\<close>

text \<open>
  The model covers \<open>Up\<close>, \<open>CurrentVersion\<close> and the methods they call. What
  \<open>fmt.Printf\<close> writes to the standard output is left out.

  Of the fields of \<open>migrator\<close>, \<open>db\<close> is the connection passed to every method,
  \<open>lockFactory\<close> is kept as whether one was supplied, and \<open>strategy\<close> and \<open>logger\<close>
  are read by no method. \<open>Asset\<close>, the generated lookup of a migration file's
  contents, is a parameter \<open>asset\<close>.
\<close>

record migrator =
  lockFactory :: bool
  migrationFiles :: "string list"

text \<open>
  \<open>strings.Split(s, sep)\<close> for a separator of one byte, the only way the program calls
  it: the pieces of \<open>s\<close> between the separators, one more than there are separators.
\<close>

fun strings_Split :: "string \<Rightarrow> char \<Rightarrow> string list" where
  "strings_Split [] sep = [[]]"
| "strings_Split (c # cs) sep =
     (if c = sep then [] # strings_Split cs sep
      else case strings_Split cs sep of
             [] \<Rightarrow> [[c]]
           | piece # pieces \<Rightarrow> (c # piece) # pieces)"

definition checkOrCreateSchemaMigrationsTable ::
  "'u sql \<Rightarrow> 'u conn \<Rightarrow> error option \<times> 'u conn" where
  "checkOrCreateSchemaMigrationsTable sem w =
     db_Exec sem
       (''CREATE TABLE IF NOT EXISTS '' @ postgresTableName @
        '' (version varchar(255) not null primary key)'') w"

definition CurrentVersion :: "'u sql \<Rightarrow> 'u conn \<Rightarrow> (int \<times> error option) \<times> 'u conn" where
  "CurrentVersion sem w =
     (case checkOrCreateSchemaMigrationsTable sem w of
        (Some err, w1) \<Rightarrow> ((0, Some err), w1)
      | (None, w1) \<Rightarrow>
          (case db_Exec sem (''SELECT version from '' @ postgresTableName @ '' ORDER BY DESC'') w1 of
             (_, w2) \<Rightarrow> ((0, None), w2)))"

text \<open>
  \<open>existLegacyVersion\<close> returns \<open>err != nil || exists\<close>; \<open>exists\<close> keeps its zero value
  \<open>false\<close> when \<open>Scan\<close> fails.
\<close>

definition existLegacyVersion :: "'u conn \<Rightarrow> bool \<times> 'u conn" where
  "existLegacyVersion w =
     (case db_QueryRow
             ''SELECT EXISTS ( SELECT 1 FROM information_schema.tables WHERE table_name = 'migration_version')''
             w of
        (row, w1) \<Rightarrow>
          (case Scan_bool row of
             Inl err \<Rightarrow> (True, w1)
           | Inr exists \<Rightarrow> (exists, w1)))"

definition checkLegacyVersion :: "'u sql \<Rightarrow> 'u conn \<Rightarrow> (int \<times> error option) \<times> 'u conn" where
  "checkLegacyVersion sem w =
     (case existLegacyVersion w of
        (False, w1) \<Rightarrow> ((- 1, None), w1)
      | (True, w1) \<Rightarrow>
          (case db_QueryRow ''SELECT version FROM migration_version'' w1 of
             (row, w2) \<Rightarrow>
               (case Scan_int row of
                  Inl err \<Rightarrow> ((- 1, None), w2)
                | Inr dbVersion \<Rightarrow>
                    if dbVersion \<noteq> oldMigrationLastVersion then
                      ((- 1, Some (MustUpgrade oldMigrationLastVersion dbVersion)), w2)
                    else
                      (case db_Exec sem ''DROP TABLE IF EXISTS migration_version'' w2 of
                         (Some err, w3) \<Rightarrow> ((- 1, Some err), w3)
                       | (None, w3) \<Rightarrow> ((newMigrationStartVersion, None), w3)))))"

definition ParseFile :: "(string \<Rightarrow> string option) \<Rightarrow> string \<Rightarrow> error + string list" where
  "ParseFile asset migrationFileName =
     (case asset migrationFileName of
        None \<Rightarrow> Inl (AssetNotFound migrationFileName)
      | Some migrationFileContents \<Rightarrow> Inr (strings_Split migrationFileContents (CHR '';'')))"

text \<open>The loop of \<open>runTransaction\<close> over the statements, each sent to the transaction.\<close>

fun runTransaction_statements ::
  "'u sql \<Rightarrow> string list \<Rightarrow> 'u store \<Rightarrow> 'u conn \<Rightarrow> error option \<times> 'u store \<times> 'u conn" where
  "runTransaction_statements sem [] tx w = (None, tx, w)"
| "runTransaction_statements sem (statement # rest) tx w =
     (case tx_Exec sem statement tx w of
        (Some migrationErr, tx1, w1) \<Rightarrow> (Some migrationErr, tx1, w1)
      | (None, tx1, w1) \<Rightarrow> runTransaction_statements sem rest tx1 w1)"

text \<open>
  The deferred function of \<open>runTransaction\<close>. \<open>err\<close> is the error of \<open>Begin\<close>, which is
  \<open>nil\<close> whenever the deferred function runs. The error of \<open>Rollback\<close> goes into a
  \<open>fmt.Errorf\<close> whose value is dropped.
\<close>

definition runTransaction_deferred ::
  "error option \<Rightarrow> error option \<Rightarrow> 'u store \<Rightarrow> 'u conn \<Rightarrow> error option \<times> 'u conn" where
  "runTransaction_deferred err migrationErr tx w =
     (if migrationErr \<noteq> None then
        (case tx_Rollback tx w of (_, w1) \<Rightarrow> (err, w1))
      else
        (case tx_Commit tx w of
           (Some commitErr, w1) \<Rightarrow> (Some commitErr, w1)
         | (None, w1) \<Rightarrow> (None, w1)))"

text \<open>
  \<open>runTransaction\<close> has no named result, so what the deferred function returns is
  discarded by Go: the function returns what its \<open>return\<close> statement gave.
\<close>

definition runTransaction :: "'u sql \<Rightarrow> string list \<Rightarrow> 'u conn \<Rightarrow> error option \<times> 'u conn" where
  "runTransaction sem statements w =
     (case db_Begin w of
        (Inl err, w1) \<Rightarrow> (Some err, w1)
      | (Inr tx, w1) \<Rightarrow>
          (case runTransaction_statements sem statements tx w1 of
             (migrationErr, tx2, w2) \<Rightarrow>
               (case runTransaction_deferred None migrationErr tx2 w2 of
                  (_, w3) \<Rightarrow> (migrationErr, w3))))"

text \<open>The inner loop of \<open>Up\<close> over \<open>statements[1:]\<close>, each sent to the connection.\<close>

fun Up_statements :: "'u sql \<Rightarrow> string list \<Rightarrow> 'u conn \<Rightarrow> error option \<times> 'u conn" where
  "Up_statements sem [] w = (None, w)"
| "Up_statements sem (statement # rest) w =
     (case db_Exec sem statement w of
        (Some err, w1) \<Rightarrow> (Some err, w1)
      | (None, w1) \<Rightarrow> Up_statements sem rest w1)"

text \<open>
  The outer loop of \<open>Up\<close> over \<open>migrationFiles\<close>. \<open>statements[0]\<close> panics on an empty
  slice; the panic is the result \<open>IndexOutOfRange\<close>.
\<close>

fun Up_files ::
  "'u sql \<Rightarrow> (string \<Rightarrow> string option) \<Rightarrow> string list \<Rightarrow> 'u conn \<Rightarrow> error option \<times> 'u conn" where
  "Up_files sem asset [] w = (None, w)"
| "Up_files sem asset (migration # rest) w =
     (case ParseFile asset migration of
        Inl err \<Rightarrow> (Some err, w)
      | Inr statements \<Rightarrow>
          (case statements of
             [] \<Rightarrow> (Some IndexOutOfRange, w)
           | first # others \<Rightarrow>
               if first = noTransaction then
                 (case Up_statements sem others w of
                    (Some err, w1) \<Rightarrow> (Some err, w1)
                  | (None, w1) \<Rightarrow> Up_files sem asset rest w1)
               else
                 (case runTransaction sem statements w of
                    (Some err, w1) \<Rightarrow> (Some err, w1)
                  | (None, w1) \<Rightarrow> Up_files sem asset rest w1)))"

definition Up ::
  "'u sql \<Rightarrow> (string \<Rightarrow> string option) \<Rightarrow> migrator \<Rightarrow> 'u conn \<Rightarrow> error option \<times> 'u conn" where
  "Up sem asset self w =
     (case checkOrCreateSchemaMigrationsTable sem w of
        (Some err, w1) \<Rightarrow> (Some err, w1)
      | (None, w1) \<Rightarrow>
          (case checkLegacyVersion sem w1 of
             ((_, Some err), w2) \<Rightarrow> (Some err, w2)
           | ((_, None), w2) \<Rightarrow> Up_files sem asset (migrationFiles self) w2))"

subsection \<open>Observing a run\<close>

text \<open>The calls a run made: what the trace of the connection gained from \<open>w\<close> to \<open>w'\<close>.\<close>

definition emitted :: "'u conn \<Rightarrow> 'u conn \<Rightarrow> (call \<times> error option) list" where
  "emitted w w' = drop (length (trace w)) (trace w')"

text \<open>The rows of \<open>migration_version\<close>; none when the table does not exist.\<close>

definition version_rows :: "'u store \<Rightarrow> val list" where
  "version_rows st = (case fst st of None \<Rightarrow> [] | Some rows \<Rightarrow> rows)"

text \<open>The statements \<open>ParseFile\<close> gives for a migration file, and the calls of a unit
  that runs through: one transaction around its statements.\<close>

definition statements_of :: "(string \<Rightarrow> string option) \<Rightarrow> string \<Rightarrow> string list" where
  "statements_of asset migration =
     (case ParseFile asset migration of Inl _ \<Rightarrow> [] | Inr statements \<Rightarrow> statements)"

definition unit_calls :: "(string \<Rightarrow> string option) \<Rightarrow> string \<Rightarrow> call list" where
  "unit_calls asset migration = Begin # map TxExec (statements_of asset migration) @ [Commit]"

text \<open>
  Modelled from the spec: the numeric key of a migration unit. The program holds the
  units as file names only (\<open>migrationFiles []string\<close>) and never reads a key from
  them. Here the key of a unit is the number its file name starts with, as in
  \<open>1510262030_initial_schema.up.sql\<close>.
\<close>

definition unit_key :: "string \<Rightarrow> int" where
  "unit_key name = decimal (takeWhile is_digit name)"

subsection \<open>Example databases and catalogues\<close>

text \<open>
  An example of \<open>sem\<close>. An \<open>INSERT INTO migration_version (version) VALUES (...)\<close> of
  a number or of a quoted text adds that row to the version table; it is rejected when
  the table does not exist or holds the value already (the primary key). Of every other
  statement the database keeps the text, and rejects a statement it has applied
  already, as PostgreSQL rejects a second \<open>CREATE TABLE foo\<close>.
\<close>

definition insert_prefix :: string where
  "insert_prefix = ''INSERT INTO migration_version (version) VALUES (''"

definition inserted_value :: "string \<Rightarrow> val option" where
  "inserted_value s =
     (if take (length insert_prefix) s = insert_prefix \<and> s \<noteq> insert_prefix \<and>
         last s = CHR '')'' then
        (case butlast (drop (length insert_prefix) s) of
           [] \<Rightarrow> None
         | c # cs \<Rightarrow>
             if list_all is_digit (c # cs) then Some (VInt (decimal (c # cs)))
             else if c = CHR 0x27 \<and> cs \<noteq> [] \<and> last cs = CHR 0x27 then Some (VText (butlast cs))
             else None)
      else None)"

definition sql_once :: "string list sql" where
  "sql_once s st =
     (case inserted_value s of
        Some v \<Rightarrow>
          (case fst st of
             None \<Rightarrow> None
           | Some rows \<Rightarrow> if v \<in> set rows then None else Some (Some (rows @ [v]), snd st))
      | None \<Rightarrow> if s \<in> set (snd st) then None else Some (fst st, snd st @ [s]))"

text \<open>A connection just opened on a database, with the positions of the faults to come.\<close>

definition opened :: "'u store \<Rightarrow> nat list \<Rightarrow> 'u conn" where
  "opened st fs = \<lparr>committed = st, trace = [], faults = fs\<rparr>"

text \<open>A migrator over a catalogue of units (file name, contents), in the order given.\<close>

definition catalogue :: "(string \<times> string) list \<Rightarrow> migrator" where
  "catalogue units = \<lparr>lockFactory = True, migrationFiles = map fst units\<rparr>"

section \<open>Properties of the model\<close>

subsection \<open>The statement splitter\<close>

text \<open>A split is never empty, and no piece contains the separator: no piece is the
  sentinel, which ends with it.\<close>

lemma strings_Split_nonempty: "strings_Split s sep \<noteq> []"
  by (cases s) (auto split: list.splits)

subsection \<open>The SQL texts\<close>

lemma sql_distinct:
  "createTableSql \<noteq> dropTableSql" "createTableSql \<noteq> currentVersionSql"
  "dropTableSql \<noteq> currentVersionSql" "dropTableSql \<noteq> createTableSql" 
  "currentVersionSql \<noteq> createTableSql" "currentVersionSql \<noteq> dropTableSql"
  "existsSql \<noteq> selectVersionSql" "selectVersionSql \<noteq> existsSql"
  by (simp_all add: createTableSql_def dropTableSql_def currentVersionSql_def postgresTableName_def existsSql_def selectVersionSql_def)

subsection \<open>Pieces and the sentinel\<close>

lemma split_no_sep: "piece \<in> set (strings_Split s sep) \<Longrightarrow> sep \<notin> set piece"
proof (induction s arbitrary: piece)
  case Nil
  then show ?case by simp
next
  case (Cons c cs)
  then show ?case
    by (cases "strings_Split cs sep") (auto split: if_splits)
qed

lemma noTransaction_not_piece: "noTransaction \<notin> set (strings_Split body (CHR '';''))"
proof
  assume "noTransaction \<in> set (strings_Split body (CHR '';''))"
  then have "CHR '';'' \<notin> set noTransaction" by (rule split_no_sep)
  then show False by (simp add: noTransaction_def)
qed

subsection \<open>The statements on the version table\<close>

lemma checkOrCreate_eq: "checkOrCreateSchemaMigrationsTable sem w = db_Exec sem createTableSql w"
  by (simp add: checkOrCreateSchemaMigrationsTable_def createTableSql_def)

lemma sql_exec_create [simp]:
  "sql_exec sem createTableSql st = Inr (case fst st of None \<Rightarrow> Some [] | Some rows \<Rightarrow> Some rows, snd st)"
  by (simp add: sql_exec_def)

lemma sql_exec_drop [simp]: "sql_exec sem dropTableSql st = Inr (None, snd st)"
  by (simp add: sql_exec_def sql_distinct)

lemma sql_exec_current [simp]: "sql_exec sem currentVersionSql st = Inl (StatementRejected currentVersionSql)"
  by (simp add: sql_exec_def sql_distinct)

lemma sql_query_exists [simp]: "sql_query existsSql st = Inr (VBool (fst st \<noteq> None))"
  by (simp add: sql_query_def)

lemma sql_query_select [simp]:
  "sql_query selectVersionSql st =
     (case fst st of None \<Rightarrow> Inl UndefinedTable | Some [] \<Rightarrow> Inl ErrNoRows | Some (v # _) \<Rightarrow> Inr v)"
  by (simp add: sql_query_def sql_distinct)

text \<open>A statement that \<open>sem\<close> lets add no version row adds none through \<open>sql_exec\<close>.\<close>

lemma sql_exec_rows:
  assumes "\<And>st st'. sem s st = Some st' \<Longrightarrow> set (version_rows st') \<subseteq> set (version_rows st)"
    and "sql_exec sem s st = Inr st'"
  shows "set (version_rows st') \<subseteq> set (version_rows st)"
proof (cases "s = createTableSql \<or> s = dropTableSql \<or> s = currentVersionSql")
  case True
  with assms(2) show ?thesis
    by (auto simp: sql_exec_def version_rows_def split: if_splits option.splits)
next
  case False
  with assms(2) have "sem s st = Some st'"
    by (auto simp: sql_exec_def split: option.splits)
  then show ?thesis by (rule assms(1))
qed

lemma sql_exec_no_panic: "sql_exec sem s st \<noteq> Inl IndexOutOfRange"
  by (auto simp: sql_exec_def split: option.splits)

subsection \<open>Driver calls\<close>

text \<open>What one driver call does to the connection.\<close>

lemma db_Exec_D:
  assumes "db_Exec sem s w = (r, w')"
  shows "trace w' = trace w @ [(Exec s, r)]" and "faults w' = faults w"
    and "r \<noteq> Some IndexOutOfRange"
    and "r \<noteq> None \<Longrightarrow> committed w' = committed w"
    and "r = None \<Longrightarrow> sql_exec sem s (committed w) = Inr (committed w')"
  using assms sql_exec_no_panic [of sem s "committed w"]
  by (auto simp: db_Exec_def logged_def split: if_splits sum.splits)

lemma db_QueryRow_D:
  assumes "db_QueryRow s w = (r, w')"
  shows "trace w' = trace w @ [(QueryRow s, case r of Inl e \<Rightarrow> Some e | Inr _ \<Rightarrow> None)]"
    and "faults w' = faults w" and "committed w' = committed w"
  using assms
  by (auto simp: db_QueryRow_def logged_def split: if_splits sum.splits)

lemma db_Begin_D:
  assumes "db_Begin w = (r, w')"
  shows "trace w' = trace w @ [(Begin, case r of Inl e \<Rightarrow> Some e | Inr _ \<Rightarrow> None)]"
    and "faults w' = faults w" and "committed w' = committed w"
    and "r \<noteq> Inl IndexOutOfRange" and "\<And>tx. r = Inr tx \<Longrightarrow> tx = committed w"
  using assms
  by (auto simp: db_Begin_def logged_def split: if_splits)

lemma tx_Exec_D:
  assumes "tx_Exec sem s tx w = (r, tx', w')"
  shows "trace w' = trace w @ [(TxExec s, r)]" and "faults w' = faults w"
    and "committed w' = committed w" and "r \<noteq> Some IndexOutOfRange"
    and "r = None \<Longrightarrow> sql_exec sem s tx = Inr tx'"
  using assms sql_exec_no_panic [of sem s tx]
  by (auto simp: tx_Exec_def logged_def split: if_splits sum.splits)

lemma tx_Commit_D:
  assumes "tx_Commit tx w = (r, w')"
  shows "trace w' = trace w @ [(Commit, r)]" and "faults w' = faults w"
    and "committed w' = committed w \<or> committed w' = tx"
  using assms
  by (auto simp: tx_Commit_def logged_def split: if_splits)

lemma tx_Rollback_D:
  assumes "tx_Rollback tx w = (r, w')"
  shows "trace w' = trace w @ [(Rollback, r)]" and "faults w' = faults w"
    and "committed w' = committed w"
  using assms
  by (auto simp: tx_Rollback_def logged_def split: if_splits)

subsection \<open>The methods, with the SQL texts named\<close>

lemma existLegacyVersion_eq:
  "existLegacyVersion w =
     (case db_QueryRow existsSql w of
        (row, w1) \<Rightarrow>
          (case Scan_bool row of
             Inl err \<Rightarrow> (True, w1)
           | Inr exists \<Rightarrow> (exists, w1)))"
  unfolding existLegacyVersion_def existsSql_def ..

lemma checkLegacyVersion_eq:
  "checkLegacyVersion sem w =
     (case existLegacyVersion w of
        (False, w1) \<Rightarrow> ((- 1, None), w1)
      | (True, w1) \<Rightarrow>
          (case db_QueryRow selectVersionSql w1 of
             (row, w2) \<Rightarrow>
               (case Scan_int row of
                  Inl err \<Rightarrow> ((- 1, None), w2)
                | Inr dbVersion \<Rightarrow>
                    if dbVersion \<noteq> oldMigrationLastVersion then
                      ((- 1, Some (MustUpgrade oldMigrationLastVersion dbVersion)), w2)
                    else
                      (case db_Exec sem dropTableSql w2 of
                         (Some err, w3) \<Rightarrow> ((- 1, Some err), w3)
                       | (None, w3) \<Rightarrow> ((newMigrationStartVersion, None), w3)))))"
  unfolding checkLegacyVersion_def selectVersionSql_def dropTableSql_def ..

lemma CurrentVersion_eq:
  "CurrentVersion sem w =
     (case db_Exec sem createTableSql w of
        (Some err, w1) \<Rightarrow> ((0, Some err), w1)
      | (None, w1) \<Rightarrow>
          (case db_Exec sem currentVersionSql w1 of (_, w2) \<Rightarrow> ((0, None), w2)))"
  unfolding CurrentVersion_def checkOrCreateSchemaMigrationsTable_def createTableSql_def currentVersionSql_def ..

text \<open>One round of the loop of \<open>Up\<close>: the sentinel branch and the panic are
  never reached.\<close>

lemma Up_files_Cons:
  "Up_files sem asset (migration # rest) w =
     (case asset migration of
        None \<Rightarrow> (Some (AssetNotFound migration), w)
      | Some body \<Rightarrow>
          (case runTransaction sem (strings_Split body (CHR '';'')) w of
             (Some err, w1) \<Rightarrow> (Some err, w1)
           | (None, w1) \<Rightarrow> Up_files sem asset rest w1))"
proof (cases "asset migration")
  case None
  then show ?thesis by (simp add: ParseFile_def)
next
  case (Some body)
  obtain first others where sp: "strings_Split body (CHR '';'') = first # others"
    using strings_Split_nonempty [of body "CHR '';''"] by (cases "strings_Split body (CHR '';'')") auto
  have "first \<noteq> noTransaction"
    using noTransaction_not_piece [of body] sp by auto
  with Some sp show ?thesis by (simp add: ParseFile_def)
qed

subsection \<open>Transactions\<close>

text \<open>The loop of a transaction: faults, the committed database and the calls made.\<close>

lemma runTransaction_statements_D:
  "runTransaction_statements sem ss tx w = (r, tx', w') \<Longrightarrow>
     (faults w' = faults w \<and> committed w' = committed w \<and> r \<noteq> Some IndexOutOfRange) \<and>
     (\<exists>evs. trace w' = trace w @ evs \<and>
        (r = None \<longrightarrow> evs = map (\<lambda>s. (TxExec s, None)) ss) \<and>
        (\<forall>c x. (c, x) \<in> set evs \<longrightarrow> (\<exists>s \<in> set ss. c = TxExec s) \<and> (x \<noteq> None \<longrightarrow> r = x)) \<and>
        (\<forall>e. r = Some e \<longrightarrow> (\<exists>s. (TxExec s, Some e) \<in> set evs)) \<and>
        (ss \<noteq> [] \<longrightarrow> (\<exists>x. (TxExec (hd ss), x) \<in> set evs)))"
  (is "_ \<Longrightarrow> ?A w w' r \<and> (\<exists>evs. ?T ss w w' r evs)")
proof (induction ss arbitrary: tx w)
  case Nil
  then have "r = None" "w' = w" by auto
  then have "?T [] w w' r []" by simp
  then have T: "\<exists>evs. ?T [] w w' r evs" by (rule exI [of "?T [] w w' r" "[]"])
  have A: "?A w w' r" using \<open>r = None\<close> \<open>w' = w\<close> by simp
  from A T show ?case by (rule conjI)
next
  case (Cons s ss)
  obtain r1 tx1 w1 where step: "tx_Exec sem s tx w = (r1, tx1, w1)"
    by (cases "tx_Exec sem s tx w") auto
  note d = tx_Exec_D [OF step]
  show ?case
  proof (cases r1)
    case (Some e)
    with Cons.prems step have res: "r = Some e" "tx' = tx1" "w' = w1" by auto
    have "?T (s # ss) w w' r [(TxExec s, Some e)]" using res d(1) Some by simp
    then have T: "\<exists>evs. ?T (s # ss) w w' r evs"
      by (rule exI [of "?T (s # ss) w w' r" "[(TxExec s, Some e)]"])
    have A: "?A w w' r" using res Some d(2,3,4) by simp
    from A T show ?thesis by (rule conjI)
  next
    case None
    with Cons.prems step have rest: "runTransaction_statements sem ss tx1 w1 = (r, tx', w')"
      by simp
    note ih = Cons.IH [OF rest]
    have a: "?A w1 w' r" using ih by (rule conjunct1)
    obtain evs where T: "?T ss w1 w' r evs" using ih [THEN conjunct2] by (rule exE)
    have e: "trace w' = trace w1 @ evs" "r = None \<longrightarrow> evs = map (\<lambda>s. (TxExec s, None)) ss"
         "\<forall>c x. (c, x) \<in> set evs \<longrightarrow> (\<exists>s \<in> set ss. c = TxExec s) \<and> (x \<noteq> None \<longrightarrow> r = x)"
         "\<forall>e. r = Some e \<longrightarrow> (\<exists>s. (TxExec s, Some e) \<in> set evs)"
      using T by blast+
    let ?evs = "(TxExec s, None) # evs"
    have 1: "trace w' = trace w @ ?evs"
      using d(1) e(1) None by simp
    have 2: "r = None \<longrightarrow> ?evs = map (\<lambda>s. (TxExec s, None)) (s # ss)"
      using e(2) by simp
    have 3: "\<forall>c x. (c, x) \<in> set ?evs \<longrightarrow>
        (\<exists>s' \<in> set (s # ss). c = TxExec s') \<and> (x \<noteq> None \<longrightarrow> r = x)"
      using e(3) by auto
    have 4: "\<forall>e. r = Some e \<longrightarrow> (\<exists>s. (TxExec s, Some e) \<in> set ?evs)"
      using e(4) by auto
    have 5: "s # ss \<noteq> [] \<longrightarrow> (\<exists>x. (TxExec (hd (s # ss)), x) \<in> set ?evs)"
      by auto
    have "?T (s # ss) w w' r ?evs"
      using 1 2 3 4 5 by (intro conjI)
    then have T: "\<exists>evs. ?T (s # ss) w w' r evs"
      by (rule exI [of "?T (s # ss) w w' r" ?evs])
    have A: "?A w w' r" using a d(2,3) by simp
    from A T show ?thesis by (rule conjI)
  qed
qed

lemma runTransaction_statements_rows:
  "\<forall>s \<in> set ss. \<forall>st st'. sem s st = Some st' \<longrightarrow>
       set (version_rows st') \<subseteq> set (version_rows st) \<Longrightarrow>
   runTransaction_statements sem ss tx w = (r, tx', w') \<Longrightarrow>
   set (version_rows tx') \<subseteq> set (version_rows tx)"
proof (induction ss arbitrary: tx w)
  case Nil
  then show ?case by simp
next
  case (Cons s ss)
  obtain r1 tx1 w1 where step: "tx_Exec sem s tx w = (r1, tx1, w1)"
    by (cases "tx_Exec sem s tx w") auto
  have keep: "\<And>st st'. sem s st = Some st' \<Longrightarrow> set (version_rows st') \<subseteq> set (version_rows st)"
  proof -
    fix st st'
    assume "sem s st = Some st'"
    moreover have "s \<in> set (s # ss)" by simp
    ultimately show "set (version_rows st') \<subseteq> set (version_rows st)"
      using Cons.prems(1) by blast
  qed
  have keeps: "\<forall>s \<in> set ss. \<forall>st st'. sem s st = Some st' \<longrightarrow>
       set (version_rows st') \<subseteq> set (version_rows st)"
  proof
    fix s'
    assume "s' \<in> set ss"
    then have "s' \<in> set (s # ss)" by simp
    then show "\<forall>st st'. sem s' st = Some st' \<longrightarrow>
       set (version_rows st') \<subseteq> set (version_rows st)"
      using Cons.prems(1) by blast
  qed
  show ?case
  proof (cases r1)
    case (Some e)
    with Cons.prems(2) step have "tx' = tx1" by auto
    moreover have "tx1 = tx" using step Some
      by (auto simp: tx_Exec_def split: if_splits sum.splits)
    ultimately show ?thesis by simp
  next
    case None
    with Cons.prems(2) step have rest: "runTransaction_statements sem ss tx1 w1 = (r, tx', w')"
      by simp
    have "sql_exec sem s tx = Inr tx1" using tx_Exec_D(5) [OF step] None by simp
    then have "set (version_rows tx1) \<subseteq> set (version_rows tx)"
      using keep sql_exec_rows by blast
    moreover have "set (version_rows tx') \<subseteq> set (version_rows tx1)"
      using Cons.IH [OF keeps rest] .
    ultimately show ?thesis by blast
  qed
qed

lemma db_Begin_ok: "\<not> faulty w \<Longrightarrow> db_Begin w = (Inr (committed w), logged Begin None w)"
  by (simp add: db_Begin_def)

lemma runTransaction_D:
  assumes run: "runTransaction sem ss w = (r, w')"
  shows "faults w' = faults w" and "r \<noteq> Some IndexOutOfRange"
    and "r \<noteq> None \<Longrightarrow> committed w' = committed w"
    and "\<exists>evs. trace w' = trace w @ evs \<and>
      (r = None \<longrightarrow> (\<exists>x. evs = (Begin, None) # map (\<lambda>s. (TxExec s, None)) ss @ [(Commit, x)])) \<and>
      (\<forall>c x. (c, x) \<in> set evs \<longrightarrow>
         c = Begin \<or> c = Commit \<or> c = Rollback \<or> (\<exists>s \<in> set ss. c = TxExec s)) \<and>
      (\<forall>c e. (c, Some e) \<in> set evs \<and> (c = Begin \<or> (\<exists>s. c = TxExec s)) \<longrightarrow> r = Some e) \<and>
      (\<forall>s e. (TxExec s, Some e) \<in> set evs \<longrightarrow> fst (last evs) = Rollback) \<and>
      (\<forall>e. r = Some e \<longrightarrow> (\<exists>c. (c, Some e) \<in> set evs \<and> (c = Begin \<or> (\<exists>s. c = TxExec s)))) \<and>
      (\<not> faulty w \<and> ss \<noteq> [] \<longrightarrow> (Begin, None) \<in> set evs \<and> (\<exists>x. (TxExec (hd ss), x) \<in> set evs))"
    (is "\<exists>evs. ?T evs")
proof -
  obtain rb w1 where b: "db_Begin w = (rb, w1)" by (cases "db_Begin w") auto
  note db = db_Begin_D [OF b]
  have all: "(faults w' = faults w \<and> r \<noteq> Some IndexOutOfRange \<and>
     (r \<noteq> None \<longrightarrow> committed w' = committed w)) \<and> (\<exists>evs. ?T evs)"
  proof (cases rb)
    case (Inl e)
    with run b have res: "r = Some e" "w' = w1" by (auto simp: runTransaction_def)
    have nf: "faulty w" using b Inl db_Begin_ok [of w] by auto
    have "?T [(Begin, Some e)]" using db(1) Inl res nf by simp
    then have T: "\<exists>evs. ?T evs" by (rule exI [of ?T "[(Begin, Some e)]"])
    have A: "faults w' = faults w \<and> r \<noteq> Some IndexOutOfRange \<and>
       (r \<noteq> None \<longrightarrow> committed w' = committed w)"
      using res db Inl by auto
    from A T show ?thesis by (rule conjI)
  next
    case (Inr tx)
    then have tx: "tx = committed w" using db(5) by simp
    obtain mr tx2 w2 where s: "runTransaction_statements sem ss tx w1 = (mr, tx2, w2)"
      by (cases "runTransaction_statements sem ss tx w1") auto
    note sd = runTransaction_statements_D [OF s]
    have a: "faults w2 = faults w1" "committed w2 = committed w1" "mr \<noteq> Some IndexOutOfRange"
      using sd [THEN conjunct1] by simp_all
    obtain evs where T2: "trace w2 = trace w1 @ evs \<and>
        (mr = None \<longrightarrow> evs = map (\<lambda>s. (TxExec s, None)) ss) \<and>
        (\<forall>c x. (c, x) \<in> set evs \<longrightarrow> (\<exists>s \<in> set ss. c = TxExec s) \<and> (x \<noteq> None \<longrightarrow> mr = x)) \<and>
        (\<forall>e. mr = Some e \<longrightarrow> (\<exists>s. (TxExec s, Some e) \<in> set evs)) \<and>
        (ss \<noteq> [] \<longrightarrow> (\<exists>x. (TxExec (hd ss), x) \<in> set evs))"
      using sd [THEN conjunct2] by (rule exE)
    note e = T2 [THEN conjunct1] T2 [THEN conjunct2, THEN conjunct1]
      T2 [THEN conjunct2, THEN conjunct2, THEN conjunct1]
      T2 [THEN conjunct2, THEN conjunct2, THEN conjunct2, THEN conjunct1]
      T2 [THEN conjunct2, THEN conjunct2, THEN conjunct2, THEN conjunct2]
    show ?thesis
    proof (cases mr)
      case None
      obtain x w3 where c: "tx_Commit tx2 w2 = (x, w3)" by (cases "tx_Commit tx2 w2") auto
      note dc = tx_Commit_D [OF c]
      from run b Inr s None c have res: "r = None" "w' = w3"
        by (auto simp: runTransaction_def runTransaction_deferred_def split: option.splits)
      let ?evs = "(Begin, None) # evs @ [(Commit, x)]"
      have tr: "trace w' = trace w @ ?evs" using res dc(1) e(1) db(1) Inr by simp
      have ev: "evs = map (\<lambda>s. (TxExec s, None)) ss" using e(2) None by simp
      have 1: "r = None \<longrightarrow> (\<exists>y. ?evs = (Begin, None) # map (\<lambda>s. (TxExec s, None)) ss @ [(Commit, y)])"
        using ev by simp
      have 2: "\<forall>c x. (c, x) \<in> set ?evs \<longrightarrow>
         c = Begin \<or> c = Commit \<or> c = Rollback \<or> (\<exists>s \<in> set ss. c = TxExec s)"
        using e(3) by auto
      have 3: "\<forall>c e. (c, Some e) \<in> set ?evs \<and> (c = Begin \<or> (\<exists>s. c = TxExec s)) \<longrightarrow> r = Some e"
        using ev by auto
      have 4: "\<forall>s e. (TxExec s, Some e) \<in> set ?evs \<longrightarrow> fst (last ?evs) = Rollback"
        using ev by auto
      have 5: "\<forall>e. r = Some e \<longrightarrow> (\<exists>c. (c, Some e) \<in> set ?evs \<and> (c = Begin \<or> (\<exists>s. c = TxExec s)))"
        using res by simp
      have 6: "\<not> faulty w \<and> ss \<noteq> [] \<longrightarrow>
          (Begin, None) \<in> set ?evs \<and> (\<exists>x. (TxExec (hd ss), x) \<in> set ?evs)"
        using e(5) by auto
      have "?T ?evs" using tr 1 2 3 4 5 6 by (intro conjI)
      then have T: "\<exists>evs. ?T evs" by (rule exI [of ?T ?evs])
      have A: "faults w' = faults w \<and> r \<noteq> Some IndexOutOfRange \<and>
         (r \<noteq> None \<longrightarrow> committed w' = committed w)"
        using res dc(2) a(1) db(2) by simp
      from A T show ?thesis by (rule conjI)
    next
      case (Some e)
      obtain x w3 where c: "tx_Rollback tx2 w2 = (x, w3)" by (cases "tx_Rollback tx2 w2") auto
      note dc = tx_Rollback_D [OF c]
      from run b Inr s Some c have res: "r = Some e" "w' = w3"
        by (auto simp: runTransaction_def runTransaction_deferred_def)
      let ?evs = "(Begin, None) # evs @ [(Rollback, x)]"
      have tr: "trace w' = trace w @ ?evs" using res dc(1) e(1) db(1) Inr by simp
      have 1: "r = None \<longrightarrow> (\<exists>y. ?evs = (Begin, None) # map (\<lambda>s. (TxExec s, None)) ss @ [(Commit, y)])"
        using res by simp
      have 2: "\<forall>c x. (c, x) \<in> set ?evs \<longrightarrow>
         c = Begin \<or> c = Commit \<or> c = Rollback \<or> (\<exists>s \<in> set ss. c = TxExec s)"
        using e(3) by auto
      have 3: "\<forall>c e'. (c, Some e') \<in> set ?evs \<and> (c = Begin \<or> (\<exists>s. c = TxExec s)) \<longrightarrow> r = Some e'"
        using e(3) Some res by auto
      have 4: "\<forall>s e. (TxExec s, Some e) \<in> set ?evs \<longrightarrow> fst (last ?evs) = Rollback"
        by simp
      have 5: "\<forall>e'. r = Some e' \<longrightarrow> (\<exists>c. (c, Some e') \<in> set ?evs \<and> (c = Begin \<or> (\<exists>s. c = TxExec s)))"
        using e(4) Some res by auto
      have 6: "\<not> faulty w \<and> ss \<noteq> [] \<longrightarrow>
          (Begin, None) \<in> set ?evs \<and> (\<exists>x. (TxExec (hd ss), x) \<in> set ?evs)"
        using e(5) by auto
      have "?T ?evs" using tr 1 2 3 4 5 6 by (intro conjI)
      then have T: "\<exists>evs. ?T evs" by (rule exI [of ?T ?evs])
      have A: "faults w' = faults w \<and> r \<noteq> Some IndexOutOfRange \<and>
         (r \<noteq> None \<longrightarrow> committed w' = committed w)"
        using res dc a db Some by simp
      from A T show ?thesis by (rule conjI)
    qed
  qed
  note A = all [THEN conjunct1]
  show "faults w' = faults w" using A by simp
  show "r \<noteq> Some IndexOutOfRange" using A by simp
  show "r \<noteq> None \<Longrightarrow> committed w' = committed w" using A by simp
  show "\<exists>evs. ?T evs" using all by (rule conjunct2)
qed

lemma runTransaction_rows:
  assumes keep: "\<forall>s \<in> set ss. \<forall>st st'. sem s st = Some st' \<longrightarrow>
       set (version_rows st') \<subseteq> set (version_rows st)"
    and run: "runTransaction sem ss w = (r, w')"
  shows "set (version_rows (committed w')) \<subseteq> set (version_rows (committed w))"
proof -
  obtain rb w1 where b: "db_Begin w = (rb, w1)" by (cases "db_Begin w") auto
  note db = db_Begin_D [OF b]
  show ?thesis
  proof (cases rb)
    case (Inl e)
    with run b have "w' = w1" by (auto simp: runTransaction_def)
    with db(3) show ?thesis by simp
  next
    case (Inr tx)
    then have tx: "tx = committed w" using db(5) by simp
    obtain mr tx2 w2 where s: "runTransaction_statements sem ss tx w1 = (mr, tx2, w2)"
      by (cases "runTransaction_statements sem ss tx w1") auto
    have c2: "committed w2 = committed w1"
      using runTransaction_statements_D [OF s, THEN conjunct1] by simp
    have rows: "set (version_rows tx2) \<subseteq> set (version_rows tx)"
      using runTransaction_statements_rows [OF keep s] .
    show ?thesis
    proof (cases mr)
      case None
      obtain x w3 where c: "tx_Commit tx2 w2 = (x, w3)" by (cases "tx_Commit tx2 w2") auto
      from run b Inr s None c have "w' = w3"
        by (auto simp: runTransaction_def runTransaction_deferred_def split: option.splits)
      with tx_Commit_D(3) [OF c] c2 db(3) rows tx show ?thesis by auto
    next
      case (Some e)
      obtain x w3 where c: "tx_Rollback tx2 w2 = (x, w3)" by (cases "tx_Rollback tx2 w2") auto
      from run b Inr s Some c have "w' = w3"
        by (auto simp: runTransaction_def runTransaction_deferred_def)
      with tx_Rollback_D(3) [OF c] c2 db(3) show ?thesis by simp
    qed
  qed
qed

subsection \<open>The loop over the migration files\<close>

lemma faulty_no_faults [simp]: "faults w = [] \<Longrightarrow> \<not> faulty w"
  by (simp add: faulty_def)

lemma Up_files_D:
  "Up_files sem asset files w = (r, w') \<Longrightarrow>
     (faults w' = faults w \<and> r \<noteq> Some IndexOutOfRange) \<and>
     (\<exists>evs. trace w' = trace w @ evs \<and>
        (\<forall>c x. (c, x) \<in> set evs \<longrightarrow> c = Begin \<or> c = Commit \<or> c = Rollback \<or>
           (\<exists>f \<in> set files. \<exists>s \<in> set (statements_of asset f). c = TxExec s)) \<and>
        (r = None \<longrightarrow> map fst evs = concat (map (unit_calls asset) files) \<and>
           (\<forall>c x. (c, x) \<in> set evs \<longrightarrow> x \<noteq> None \<longrightarrow> c = Commit) \<and>
           (\<forall>f \<in> set files. asset f \<noteq> None)) \<and>
        (\<forall>c e. (c, Some e) \<in> set evs \<and> (c = Begin \<or> (\<exists>s. c = TxExec s)) \<longrightarrow> r = Some e) \<and>
        (\<forall>e. r = Some e \<longrightarrow>
           (\<exists>c. (c, Some e) \<in> set evs \<and> (c = Begin \<or> (\<exists>s. c = TxExec s))) \<or>
           (\<exists>f \<in> set files. asset f = None \<and> e = AssetNotFound f)) \<and>
        (\<forall>f fs body. \<not> faulty w \<and> files = f # fs \<and> asset f = Some body \<longrightarrow>
           (Begin, None) \<in> set evs \<and> (\<exists>x. (TxExec (hd (strings_Split body (CHR '';''))), x) \<in> set evs)))"
  (is "_ \<Longrightarrow> ?A w w' r \<and> (\<exists>evs. ?T files w w' r evs)")
proof (induction files arbitrary: w)
  case Nil
  then have res: "r = None" "w' = w" by auto
  then have "?T [] w w' r []" by simp
  then have T: "\<exists>evs. ?T [] w w' r evs" by (rule exI [of "?T [] w w' r" "[]"])
  have A: "?A w w' r" using res by simp
  from A T show ?case by (rule conjI)
next
  case (Cons m rest)
  show ?case
  proof (cases "asset m")
    case None
    with Cons.prems have res: "r = Some (AssetNotFound m)" "w' = w"
      by (auto simp: Up_files_Cons simp del: Up_files.simps)
    have "?T (m # rest) w w' r []" using res None by simp
    then have T: "\<exists>evs. ?T (m # rest) w w' r evs" by (rule exI [of "?T (m # rest) w w' r" "[]"])
    have A: "?A w w' r" using res by simp
    from A T show ?thesis by (rule conjI)
  next
    case (Some body)
    let ?ss = "strings_Split body (CHR '';'')"
    have ne: "?ss \<noteq> []" by (rule strings_Split_nonempty)
    have so: "statements_of asset m = ?ss" by (simp add: statements_of_def ParseFile_def Some)
    obtain r1 w1 where t: "runTransaction sem ?ss w = (r1, w1)"
      by (cases "runTransaction sem ?ss w") auto
    note d = runTransaction_D [OF t]
    obtain evs1 where T1: "trace w1 = trace w @ evs1 \<and>
      (r1 = None \<longrightarrow> (\<exists>x. evs1 = (Begin, None) # map (\<lambda>s. (TxExec s, None)) ?ss @ [(Commit, x)])) \<and>
      (\<forall>c x. (c, x) \<in> set evs1 \<longrightarrow>
         c = Begin \<or> c = Commit \<or> c = Rollback \<or> (\<exists>s \<in> set ?ss. c = TxExec s)) \<and>
      (\<forall>c e. (c, Some e) \<in> set evs1 \<and> (c = Begin \<or> (\<exists>s. c = TxExec s)) \<longrightarrow> r1 = Some e) \<and>
      (\<forall>s e. (TxExec s, Some e) \<in> set evs1 \<longrightarrow> fst (last evs1) = Rollback) \<and>
      (\<forall>e. r1 = Some e \<longrightarrow> (\<exists>c. (c, Some e) \<in> set evs1 \<and> (c = Begin \<or> (\<exists>s. c = TxExec s)))) \<and>
      (\<not> faulty w \<and> ?ss \<noteq> [] \<longrightarrow> (Begin, None) \<in> set evs1 \<and> (\<exists>x. (TxExec (hd ?ss), x) \<in> set evs1))"
      using d(4) by (rule exE)
    note e1 = T1 [THEN conjunct1] T1 [THEN conjunct2, THEN conjunct1]
      T1 [THEN conjunct2, THEN conjunct2, THEN conjunct1]
      T1 [THEN conjunct2, THEN conjunct2, THEN conjunct2, THEN conjunct1]
      T1 [THEN conjunct2, THEN conjunct2, THEN conjunct2, THEN conjunct2, THEN conjunct2, THEN conjunct1]
      T1 [THEN conjunct2, THEN conjunct2, THEN conjunct2, THEN conjunct2, THEN conjunct2, THEN conjunct2]
    have c1: "\<forall>c x. (c, x) \<in> set evs1 \<longrightarrow> c = Begin \<or> c = Commit \<or> c = Rollback \<or>
           (\<exists>f \<in> set (m # rest). \<exists>s \<in> set (statements_of asset f). c = TxExec s)"
      using e1(3) so by auto
    have b1: "\<forall>f fs body'. \<not> faulty w \<and> m # rest = f # fs \<and> asset f = Some body' \<longrightarrow>
           (Begin, None) \<in> set evs1 \<and>
           (\<exists>x. (TxExec (hd (strings_Split body' (CHR '';''))), x) \<in> set evs1)"
      using e1(6) ne Some by auto
    show ?thesis
    proof (cases r1)
      case r1: (Some e)
      with Cons.prems Some t have res: "r = Some e" "w' = w1"
        by (auto simp: Up_files_Cons simp del: Up_files.simps)
      have 3: "r = None \<longrightarrow> map fst evs1 = concat (map (unit_calls asset) (m # rest)) \<and>
           (\<forall>c x. (c, x) \<in> set evs1 \<longrightarrow> x \<noteq> None \<longrightarrow> c = Commit) \<and>
           (\<forall>f \<in> set (m # rest). asset f \<noteq> None)"
        using res by simp
      have 4: "\<forall>c e. (c, Some e) \<in> set evs1 \<and> (c = Begin \<or> (\<exists>s. c = TxExec s)) \<longrightarrow> r = Some e"
        using e1(4) res r1 by simp
      have 5: "\<forall>e. r = Some e \<longrightarrow>
           (\<exists>c. (c, Some e) \<in> set evs1 \<and> (c = Begin \<or> (\<exists>s. c = TxExec s))) \<or>
           (\<exists>f \<in> set (m # rest). asset f = None \<and> e = AssetNotFound f)"
        using e1(5) res r1 by simp
      have tr: "trace w' = trace w @ evs1" using e1(1) res by simp
      have "?T (m # rest) w w' r evs1"
        using tr c1 3 4 5 b1 by (intro conjI)
      then have T: "\<exists>evs. ?T (m # rest) w w' r evs"
        by (rule exI [of "?T (m # rest) w w' r" evs1])
      have A: "?A w w' r" using res d(1,2) r1 by simp
      from A T show ?thesis by (rule conjI)
    next
      case None
      with Cons.prems Some t have rest: "Up_files sem asset rest w1 = (r, w')"
        by (auto simp: Up_files_Cons simp del: Up_files.simps)
      note ih = Cons.IH [OF rest]
      have a2: "?A w1 w' r" using ih by (rule conjunct1)
      obtain evs2 where T2: "?T rest w1 w' r evs2" using ih [THEN conjunct2] by (rule exE)
      note e2 = T2 [THEN conjunct1] T2 [THEN conjunct2, THEN conjunct1]
        T2 [THEN conjunct2, THEN conjunct2, THEN conjunct1]
        T2 [THEN conjunct2, THEN conjunct2, THEN conjunct2, THEN conjunct1]
        T2 [THEN conjunct2, THEN conjunct2, THEN conjunct2, THEN conjunct2, THEN conjunct1]
      from e1(2) None obtain x where
        ev1: "evs1 = (Begin, None) # map (\<lambda>s. (TxExec s, None)) ?ss @ [(Commit, x)]" by blast
      have m1: "map fst evs1 = unit_calls asset m"
        by (simp add: ev1 unit_calls_def so comp_def)
      have f1: "\<forall>c y. (c, y) \<in> set evs1 \<longrightarrow> y \<noteq> None \<longrightarrow> c = Commit"
        by (auto simp: ev1)
      have g1: "\<forall>c e. (c, Some e) \<in> set evs1 \<longrightarrow> c = Commit"
        by (auto simp: ev1)
      have 1: "trace w' = trace w @ (evs1 @ evs2)" using e1(1) e2(1) by simp
      have 2: "\<forall>c x. (c, x) \<in> set (evs1 @ evs2) \<longrightarrow> c = Begin \<or> c = Commit \<or> c = Rollback \<or>
           (\<exists>f \<in> set (m # rest). \<exists>s \<in> set (statements_of asset f). c = TxExec s)"
        using c1 e2(2) by auto
      have 3: "r = None \<longrightarrow> map fst (evs1 @ evs2) = concat (map (unit_calls asset) (m # rest)) \<and>
           (\<forall>c x. (c, x) \<in> set (evs1 @ evs2) \<longrightarrow> x \<noteq> None \<longrightarrow> c = Commit) \<and>
           (\<forall>f \<in> set (m # rest). asset f \<noteq> None)"
        using e2(3) m1 f1 Some by auto
      have 4: "\<forall>c e. (c, Some e) \<in> set (evs1 @ evs2) \<and> (c = Begin \<or> (\<exists>s. c = TxExec s)) \<longrightarrow>
           r = Some e"
        using e2(4) g1 by auto
      have 5: "\<forall>e. r = Some e \<longrightarrow>
           (\<exists>c. (c, Some e) \<in> set (evs1 @ evs2) \<and> (c = Begin \<or> (\<exists>s. c = TxExec s))) \<or>
           (\<exists>f \<in> set (m # rest). asset f = None \<and> e = AssetNotFound f)"
        using e2(5) by auto
      have 6: "\<forall>f fs body'. \<not> faulty w \<and> m # rest = f # fs \<and> asset f = Some body' \<longrightarrow>
           (Begin, None) \<in> set (evs1 @ evs2) \<and>
           (\<exists>x. (TxExec (hd (strings_Split body' (CHR '';''))), x) \<in> set (evs1 @ evs2))"
        using b1 by auto
      have "?T (m # rest) w w' r (evs1 @ evs2)"
        using 1 2 3 4 5 6 by (intro conjI)
      then have T: "\<exists>evs. ?T (m # rest) w w' r evs"
        by (rule exI [of "?T (m # rest) w w' r" "evs1 @ evs2"])
      have A: "?A w w' r" using a2 d(1) by simp
      from A T show ?thesis by (rule conjI)
    qed
  qed
qed

lemma Up_files_rows:
  "\<forall>f \<in> set files. \<forall>s \<in> set (statements_of asset f). \<forall>st st'. sem s st = Some st' \<longrightarrow>
       set (version_rows st') \<subseteq> set (version_rows st) \<Longrightarrow>
   Up_files sem asset files w = (r, w') \<Longrightarrow>
   set (version_rows (committed w')) \<subseteq> set (version_rows (committed w))"
proof (induction files arbitrary: w)
  case Nil
  then show ?case by simp
next
  case (Cons m rest)
  have keeps: "\<forall>f \<in> set rest. \<forall>s \<in> set (statements_of asset f). \<forall>st st'. sem s st = Some st' \<longrightarrow>
       set (version_rows st') \<subseteq> set (version_rows st)"
    using Cons.prems(1) by simp
  show ?case
  proof (cases "asset m")
    case None
    with Cons.prems(2) have "w' = w"
      by (auto simp: Up_files_Cons simp del: Up_files.simps)
    then show ?thesis by simp
  next
    case (Some body)
    let ?ss = "strings_Split body (CHR '';'')"
    have so: "statements_of asset m = ?ss" by (simp add: statements_of_def ParseFile_def Some)
    have keep: "\<forall>s \<in> set ?ss. \<forall>st st'. sem s st = Some st' \<longrightarrow>
       set (version_rows st') \<subseteq> set (version_rows st)"
      using Cons.prems(1) so by simp
    obtain r1 w1 where t: "runTransaction sem ?ss w = (r1, w1)"
      by (cases "runTransaction sem ?ss w") auto
    have rows1: "set (version_rows (committed w1)) \<subseteq> set (version_rows (committed w))"
      using runTransaction_rows [OF keep t] .
    show ?thesis
    proof (cases r1)
      case r1: (Some e)
      with Cons.prems(2) Some t have "w' = w1"
        by (auto simp: Up_files_Cons simp del: Up_files.simps)
      with rows1 show ?thesis by simp
    next
      case None
      with Cons.prems(2) Some t have rest: "Up_files sem asset rest w1 = (r, w')"
        by (auto simp: Up_files_Cons simp del: Up_files.simps)
      from Cons.IH [OF keeps rest] rows1 show ?thesis by blast
    qed
  qed
qed

subsection \<open>The legacy check\<close>

lemma Scan_int_Inl [simp]: "Scan_int (Inl err) = Inl err"
  by (simp add: Scan_int_def)

lemma checkLegacyVersion_D:
  assumes run: "checkLegacyVersion sem w = ((v, r), w')"
  shows "faults w' = faults w" and "r \<noteq> Some IndexOutOfRange"
    and "committed w' = committed w \<or> committed w' = (None, snd (committed w))"
    and "\<exists>evs. trace w' = trace w @ evs \<and>
      (\<forall>c x. (c, x) \<in> set evs \<longrightarrow>
         c = QueryRow existsSql \<or> c = QueryRow selectVersionSql \<or> c = Exec dropTableSql) \<and>
      (r = None \<longrightarrow> (\<forall>c x. (c, x) \<in> set evs \<longrightarrow> x \<noteq> None \<longrightarrow> (\<exists>q. c = QueryRow q))) \<and>
      (\<forall>e. (Exec dropTableSql, Some e) \<in> set evs \<longrightarrow> r = Some e) \<and>
      (\<forall>e. r = Some e \<longrightarrow> (Exec dropTableSql, Some e) \<in> set evs \<or>
         (\<exists>dbVersion. e = MustUpgrade oldMigrationLastVersion dbVersion)) \<and>
      (\<forall>e. (QueryRow selectVersionSql, Some e) \<in> set evs \<longrightarrow>
         v = - 1 \<and> r = None \<and>
         (\<exists>x. evs = [(QueryRow existsSql, x), (QueryRow selectVersionSql, Some e)]))"
    (is "\<exists>evs. ?T evs")
proof -
  obtain b w1 where q1: "existLegacyVersion w = (b, w1)" by (cases "existLegacyVersion w") auto
  obtain r1 where p1: "db_QueryRow existsSql w = (r1, w1)"
    using q1 by (auto simp: existLegacyVersion_eq split: prod.splits sum.splits)
  note d1 = db_QueryRow_D [OF p1]
  obtain r2 w2 where p2: "db_QueryRow selectVersionSql w1 = (r2, w2)"
    by (cases "db_QueryRow selectVersionSql w1") auto
  note d2 = db_QueryRow_D [OF p2]
  obtain r3 w3 where p3: "db_Exec sem dropTableSql w2 = (r3, w3)"
    by (cases "db_Exec sem dropTableSql w2") auto
  note d3 = db_Exec_D [OF p3]
  let ?x1 = "case r1 of Inl e \<Rightarrow> Some e | Inr _ \<Rightarrow> None"
  let ?x2 = "case r2 of Inl e \<Rightarrow> Some e | Inr _ \<Rightarrow> None"
  let ?e1 = "(QueryRow existsSql, ?x1)"
  let ?e2 = "(QueryRow selectVersionSql, ?x2)"
  let ?e3 = "(Exec dropTableSql, r3)"
  have c3: "r3 = None \<longrightarrow> committed w3 = (None, snd (committed w2))"
    using d3(5) by auto
  consider (one) "w' = w1" "r = None" "v = - 1"
    | (unread) "w' = w2" "r = None" "v = - 1"
    | (other) dbVersion where "w' = w2" "r = Some (MustUpgrade oldMigrationLastVersion dbVersion)"
        "?x2 = None"
    | (cutover) "w' = w3" "r = r3" "?x2 = None"
    using run q1 p2 p3
    by (cases r2)
       (auto simp: checkLegacyVersion_eq split: bool.splits sum.splits if_splits option.splits)
  then have all: "(faults w' = faults w \<and> r \<noteq> Some IndexOutOfRange \<and>
      (committed w' = committed w \<or> committed w' = (None, snd (committed w)))) \<and>
    (\<exists>evs. ?T evs)"
  proof cases
    case one
    have "?T [?e1]" using one d1(1) by (simp add: sql_distinct)
    then have T: "\<exists>evs. ?T evs" by (rule exI [of ?T "[?e1]"])
    then show ?thesis using one d1 by simp
  next
    case unread
    have "?T [?e1, ?e2]" using unread d1(1) d2(1) by (auto simp: sql_distinct)
    then have T: "\<exists>evs. ?T evs" by (rule exI [of ?T "[?e1, ?e2]"])
    then show ?thesis using unread d1 d2 by simp
  next
    case other
    have "?T [?e1, ?e2]" using other d1(1) d2(1) by (auto simp: sql_distinct)
    then have T: "\<exists>evs. ?T evs" by (rule exI [of ?T "[?e1, ?e2]"])
    then show ?thesis using other d1 d2 by simp
  next
    case cutover
    have "?T [?e1, ?e2, ?e3]" using cutover d1(1) d2(1) d3(1) by (auto simp: sql_distinct)
    then have T: "\<exists>evs. ?T evs" by (rule exI [of ?T "[?e1, ?e2, ?e3]"])
    have "committed w' = committed w \<or> committed w' = (None, snd (committed w))"
      using cutover c3 d3(4) d2(3) d1(3) by (cases r3) auto
    then show ?thesis using T cutover d1 d2 d3 by simp
  qed
  note A = all [THEN conjunct1]
  show "faults w' = faults w" using A by simp
  show "r \<noteq> Some IndexOutOfRange" using A by simp
  show "committed w' = committed w \<or> committed w' = (None, snd (committed w))" using A by simp
  show "\<exists>evs. ?T evs" using all by (rule conjunct2)
qed

subsection \<open>Up on a connection without faults\<close>

lemma Up_eq:
  "Up sem asset self w =
     (case db_Exec sem createTableSql w of
        (Some err, w1) \<Rightarrow> (Some err, w1)
      | (None, w1) \<Rightarrow>
          (case checkLegacyVersion sem w1 of
             ((_, Some err), w2) \<Rightarrow> (Some err, w2)
           | ((_, None), w2) \<Rightarrow> Up_files sem asset (migrationFiles self) w2))"
  unfolding Up_def checkOrCreate_eq ..

lemma Up_fresh:
  assumes "faults w = []" and "version_rows (committed w) = []"
  shows "Up sem asset self w =
    Up_files sem asset (migrationFiles self)
      (w\<lparr>committed := (Some [], snd (committed w)),
         trace := trace w @ [(Exec createTableSql, None), (QueryRow existsSql, None),
                             (QueryRow selectVersionSql, Some ErrNoRows)]\<rparr>)"
  using assms
  by (cases "fst (committed w)")
     (simp_all add: Up_eq checkLegacyVersion_eq existLegacyVersion_eq db_Exec_def db_QueryRow_def
        faulty_def logged_def version_rows_def Scan_bool_def Scan_int_def)

lemma checkLegacyVersion_unread:
  assumes "faults w = []" and "fst (committed w) = Some (cell # rows)"
    and "Scan_int (Inr cell) = Inl e"
  shows "checkLegacyVersion sem w =
    ((- 1, None),
     w\<lparr>trace := trace w @ [(QueryRow existsSql, None), (QueryRow selectVersionSql, None)]\<rparr>)"
  using assms
  by (simp add: checkLegacyVersion_eq existLegacyVersion_eq db_QueryRow_def
        faulty_def logged_def Scan_bool_def)

lemma Up_legacy_unread:
  assumes "faults w = []" and "fst (committed w) = Some (cell # rows)"
    and "Scan_int (Inr cell) = Inl e"
  shows "Up sem asset self w =
    Up_files sem asset (migrationFiles self)
      (w\<lparr>trace := trace w @ [(Exec createTableSql, None), (QueryRow existsSql, None),
                             (QueryRow selectVersionSql, None)]\<rparr>)"
  using assms
  by (cases "committed w")
     (auto simp: Up_eq checkLegacyVersion_eq existLegacyVersion_eq db_Exec_def db_QueryRow_def
        faulty_def logged_def Scan_bool_def
        intro!: arg_cong [where f = "Up_files sem asset (migrationFiles self)"])

lemma Up_legacy_mismatch:
  assumes "faults w = []" and "fst (committed w) = Some (cell # rows)"
    and "Scan_int (Inr cell) = Inr v" and "v \<noteq> oldMigrationLastVersion"
  shows "Up sem asset self w =
    (Some (MustUpgrade oldMigrationLastVersion v),
     w\<lparr>trace := trace w @ [(Exec createTableSql, None), (QueryRow existsSql, None),
                           (QueryRow selectVersionSql, None)]\<rparr>)"
  using assms
  by (cases "committed w")
     (simp add: Up_eq checkLegacyVersion_eq existLegacyVersion_eq db_Exec_def db_QueryRow_def
        faulty_def logged_def Scan_bool_def)

lemma checkLegacyVersion_cutover:
  assumes "faults w = []" and "fst (committed w) = Some (cell # rows)"
    and "Scan_int (Inr cell) = Inr oldMigrationLastVersion"
  shows "checkLegacyVersion sem w =
    ((newMigrationStartVersion, None),
     w\<lparr>committed := (None, snd (committed w)),
       trace := trace w @ [(QueryRow existsSql, None), (QueryRow selectVersionSql, None),
                           (Exec dropTableSql, None)]\<rparr>)"
  using assms
  by (simp add: checkLegacyVersion_eq existLegacyVersion_eq db_Exec_def db_QueryRow_def
        faulty_def logged_def Scan_bool_def)

lemma Up_legacy_cutover:
  assumes "faults w = []" and "fst (committed w) = Some (cell # rows)"
    and "Scan_int (Inr cell) = Inr oldMigrationLastVersion"
  shows "Up sem asset self w =
    Up_files sem asset (migrationFiles self)
      (w\<lparr>committed := (None, snd (committed w)),
         trace := trace w @ [(Exec createTableSql, None), (QueryRow existsSql, None),
                             (QueryRow selectVersionSql, None), (Exec dropTableSql, None)]\<rparr>)"
  using assms
  by (cases "committed w")
     (simp add: Up_eq checkLegacyVersion_eq existLegacyVersion_eq db_Exec_def db_QueryRow_def
        faulty_def logged_def Scan_bool_def)

lemma emitted_append: "trace w' = trace w @ evs \<Longrightarrow> emitted w w' = evs"
  by (simp add: emitted_def)

subsection \<open>Up in general\<close>

lemma Up_D:
  assumes run: "Up sem asset self w = (r, w')"
  shows "faults w' = faults w" and "r \<noteq> Some IndexOutOfRange"
    and "\<exists>evs. trace w' = trace w @ evs \<and>
      (\<exists>x rest. evs = (Exec createTableSql, x) # rest) \<and>
      (\<forall>c x. (c, x) \<in> set evs \<longrightarrow>
         c = Exec createTableSql \<or> c = QueryRow existsSql \<or> c = QueryRow selectVersionSql \<or>
         c = Exec dropTableSql \<or> c = Begin \<or> c = Commit \<or> c = Rollback \<or>
         (\<exists>f \<in> set (migrationFiles self). \<exists>s \<in> set (statements_of asset f). c = TxExec s)) \<and>
      (r = None \<longrightarrow>
         (\<forall>c x. (c, x) \<in> set evs \<longrightarrow> x \<noteq> None \<longrightarrow> c = Commit \<or> (\<exists>q. c = QueryRow q)) \<and>
         (\<forall>f \<in> set (migrationFiles self). asset f \<noteq> None) \<and>
         (\<exists>pre. set pre \<subseteq> {Exec createTableSql, QueryRow existsSql,
                              QueryRow selectVersionSql, Exec dropTableSql} \<and>
            map fst evs = pre @ concat (map (unit_calls asset) (migrationFiles self)))) \<and>
      (\<forall>c e. (c, Some e) \<in> set evs \<and>
         (c = Exec createTableSql \<or> c = Exec dropTableSql \<or> c = Begin \<or> (\<exists>s. c = TxExec s)) \<longrightarrow>
         r = Some e) \<and>
      (\<forall>e. r = Some e \<longrightarrow>
         (\<exists>c. (c, Some e) \<in> set evs \<and>
            (c = Exec createTableSql \<or> c = Exec dropTableSql \<or> c = Begin \<or> (\<exists>s. c = TxExec s))) \<or>
         (\<exists>f \<in> set (migrationFiles self). asset f = None \<and> e = AssetNotFound f) \<or>
         (\<exists>dbVersion. e = MustUpgrade oldMigrationLastVersion dbVersion)) \<and>
      (\<forall>e. (QueryRow selectVersionSql, Some e) \<in> set evs \<longrightarrow>
         (\<exists>x w2. trace w2 = trace w @ [(Exec createTableSql, None), (QueryRow existsSql, x),
                                        (QueryRow selectVersionSql, Some e)] \<and>
            Up sem asset self w = Up_files sem asset (migrationFiles self) w2))"
    (is "\<exists>evs. ?T evs")
proof -
  let ?files = "migrationFiles self"
  obtain r0 w1 where p0: "db_Exec sem createTableSql w = (r0, w1)"
    by (cases "db_Exec sem createTableSql w") auto
  note d0 = db_Exec_D [OF p0]
  let ?e0 = "(Exec createTableSql, r0)"
  have all: "(faults w' = faults w \<and> r \<noteq> Some IndexOutOfRange) \<and> (\<exists>evs. ?T evs)"
  proof (cases r0)
    case (Some e)
    with run p0 have res: "r = Some e" "w' = w1" by (auto simp: Up_eq)
    have "?T [?e0]" using res d0(1) Some by (simp add: sql_distinct)
    then have T: "\<exists>evs. ?T evs" by (rule exI [of ?T "[?e0]"])
    have A: "faults w' = faults w \<and> r \<noteq> Some IndexOutOfRange" using res d0 Some by simp
    from A T show ?thesis by (rule conjI)
  next
    case None
    obtain v r1 w2 where p1: "checkLegacyVersion sem w1 = ((v, r1), w2)"
      by (cases "checkLegacyVersion sem w1") auto
    note d1 = checkLegacyVersion_D [OF p1]
    obtain evs1 where T1: "trace w2 = trace w1 @ evs1 \<and>
      (\<forall>c x. (c, x) \<in> set evs1 \<longrightarrow>
         c = QueryRow existsSql \<or> c = QueryRow selectVersionSql \<or> c = Exec dropTableSql) \<and>
      (r1 = None \<longrightarrow> (\<forall>c x. (c, x) \<in> set evs1 \<longrightarrow> x \<noteq> None \<longrightarrow> (\<exists>q. c = QueryRow q))) \<and>
      (\<forall>e. (Exec dropTableSql, Some e) \<in> set evs1 \<longrightarrow> r1 = Some e) \<and>
      (\<forall>e. r1 = Some e \<longrightarrow> (Exec dropTableSql, Some e) \<in> set evs1 \<or>
         (\<exists>dbVersion. e = MustUpgrade oldMigrationLastVersion dbVersion)) \<and>
      (\<forall>e. (QueryRow selectVersionSql, Some e) \<in> set evs1 \<longrightarrow>
         v = - 1 \<and> r1 = None \<and>
         (\<exists>x. evs1 = [(QueryRow existsSql, x), (QueryRow selectVersionSql, Some e)]))"
      using d1(4) by (rule exE)
    note e1 = T1 [THEN conjunct1] T1 [THEN conjunct2, THEN conjunct1]
      T1 [THEN conjunct2, THEN conjunct2, THEN conjunct1]
      T1 [THEN conjunct2, THEN conjunct2, THEN conjunct2, THEN conjunct1]
      T1 [THEN conjunct2, THEN conjunct2, THEN conjunct2, THEN conjunct2, THEN conjunct1]
      T1 [THEN conjunct2, THEN conjunct2, THEN conjunct2, THEN conjunct2, THEN conjunct2]
    have tr1: "trace w2 = trace w @ (?e0 # evs1)" using d0(1) e1(1) by simp
    have hd1: "\<exists>x rest. ?e0 # evs1 = (Exec createTableSql, x) # rest" by simp
    have calls1: "\<forall>c x. (c, x) \<in> set (?e0 # evs1) \<longrightarrow>
         c = Exec createTableSql \<or> c = QueryRow existsSql \<or> c = QueryRow selectVersionSql \<or>
         c = Exec dropTableSql"
      using e1(2) by auto
    have rep1: "\<forall>c e. (c, Some e) \<in> set (?e0 # evs1) \<and>
         (c = Exec createTableSql \<or> c = Exec dropTableSql \<or> c = Begin \<or> (\<exists>s. c = TxExec s)) \<longrightarrow>
         r1 = Some e"
      using e1(2,4) None by (auto simp: sql_distinct)
    show ?thesis
    proof (cases r1)
      case (Some e)
      with run p0 p1 None have res: "r = Some e" "w' = w2" by (auto simp: Up_eq)
      have 1: "trace w' = trace w @ (?e0 # evs1)" using tr1 res by simp
      have 3: "\<forall>c x. (c, x) \<in> set (?e0 # evs1) \<longrightarrow>
         c = Exec createTableSql \<or> c = QueryRow existsSql \<or> c = QueryRow selectVersionSql \<or>
         c = Exec dropTableSql \<or> c = Begin \<or> c = Commit \<or> c = Rollback \<or>
         (\<exists>f \<in> set ?files. \<exists>s \<in> set (statements_of asset f). c = TxExec s)"
        using calls1 by blast
      have 4: "r = None \<longrightarrow>
         (\<forall>c x. (c, x) \<in> set (?e0 # evs1) \<longrightarrow> x \<noteq> None \<longrightarrow> c = Commit \<or> (\<exists>q. c = QueryRow q)) \<and>
         (\<forall>f \<in> set ?files. asset f \<noteq> None) \<and>
         (\<exists>pre. set pre \<subseteq> {Exec createTableSql, QueryRow existsSql,
                              QueryRow selectVersionSql, Exec dropTableSql} \<and>
            map fst (?e0 # evs1) = pre @ concat (map (unit_calls asset) ?files))"
        using res by simp
      have 5: "\<forall>c e. (c, Some e) \<in> set (?e0 # evs1) \<and>
         (c = Exec createTableSql \<or> c = Exec dropTableSql \<or> c = Begin \<or> (\<exists>s. c = TxExec s)) \<longrightarrow>
         r = Some e"
        using rep1 res Some by simp
      have 6: "\<forall>e. r = Some e \<longrightarrow>
         (\<exists>c. (c, Some e) \<in> set (?e0 # evs1) \<and>
            (c = Exec createTableSql \<or> c = Exec dropTableSql \<or> c = Begin \<or> (\<exists>s. c = TxExec s))) \<or>
         (\<exists>f \<in> set ?files. asset f = None \<and> e = AssetNotFound f) \<or>
         (\<exists>dbVersion. e = MustUpgrade oldMigrationLastVersion dbVersion)"
        using e1(5) res Some by auto
      have 7: "\<forall>e. (QueryRow selectVersionSql, Some e) \<in> set (?e0 # evs1) \<longrightarrow>
         (\<exists>x w2. trace w2 = trace w @ [(Exec createTableSql, None), (QueryRow existsSql, x),
                                        (QueryRow selectVersionSql, Some e)] \<and>
            Up sem asset self w = Up_files sem asset ?files w2)"
        using e1(6) Some by auto
      have "?T (?e0 # evs1)" using 1 hd1 3 4 5 6 7 by (intro conjI)
      then have T: "\<exists>evs. ?T evs" by (rule exI [of ?T "?e0 # evs1"])
      have A: "faults w' = faults w \<and> r \<noteq> Some IndexOutOfRange"
        using res d0(2) d1(1,2) Some by simp
      from A T show ?thesis by (rule conjI)
    next
      case r1: None
      with run p0 p1 None have p2: "Up_files sem asset ?files w2 = (r, w')"
        by (auto simp: Up_eq)
      have up: "Up sem asset self w = Up_files sem asset ?files w2"
        using p0 p1 None r1 by (simp add: Up_eq)
      note d2 = Up_files_D [OF p2]
      have a2: "faults w' = faults w2" "r \<noteq> Some IndexOutOfRange"
        using d2 [THEN conjunct1] by simp_all
      obtain evs2 where T2: "trace w' = trace w2 @ evs2 \<and>
        (\<forall>c x. (c, x) \<in> set evs2 \<longrightarrow> c = Begin \<or> c = Commit \<or> c = Rollback \<or>
           (\<exists>f \<in> set ?files. \<exists>s \<in> set (statements_of asset f). c = TxExec s)) \<and>
        (r = None \<longrightarrow> map fst evs2 = concat (map (unit_calls asset) ?files) \<and>
           (\<forall>c x. (c, x) \<in> set evs2 \<longrightarrow> x \<noteq> None \<longrightarrow> c = Commit) \<and>
           (\<forall>f \<in> set ?files. asset f \<noteq> None)) \<and>
        (\<forall>c e. (c, Some e) \<in> set evs2 \<and> (c = Begin \<or> (\<exists>s. c = TxExec s)) \<longrightarrow> r = Some e) \<and>
        (\<forall>e. r = Some e \<longrightarrow>
           (\<exists>c. (c, Some e) \<in> set evs2 \<and> (c = Begin \<or> (\<exists>s. c = TxExec s))) \<or>
           (\<exists>f \<in> set ?files. asset f = None \<and> e = AssetNotFound f)) \<and>
        (\<forall>f fs body. \<not> faulty w2 \<and> ?files = f # fs \<and> asset f = Some body \<longrightarrow>
           (Begin, None) \<in> set evs2 \<and> (\<exists>x. (TxExec (hd (strings_Split body (CHR '';''))), x) \<in> set evs2))"
        using d2 [THEN conjunct2] by (rule exE)
      note e2 = T2 [THEN conjunct1] T2 [THEN conjunct2, THEN conjunct1]
        T2 [THEN conjunct2, THEN conjunct2, THEN conjunct1]
        T2 [THEN conjunct2, THEN conjunct2, THEN conjunct2, THEN conjunct1]
        T2 [THEN conjunct2, THEN conjunct2, THEN conjunct2, THEN conjunct2, THEN conjunct1]
      let ?evs = "?e0 # evs1 @ evs2"
      have 1: "trace w' = trace w @ ?evs" using tr1 e2(1) by simp
      have 2: "\<exists>x rest. ?evs = (Exec createTableSql, x) # rest" by simp
      have 3: "\<forall>c x. (c, x) \<in> set ?evs \<longrightarrow>
         c = Exec createTableSql \<or> c = QueryRow existsSql \<or> c = QueryRow selectVersionSql \<or>
         c = Exec dropTableSql \<or> c = Begin \<or> c = Commit \<or> c = Rollback \<or>
         (\<exists>f \<in> set ?files. \<exists>s \<in> set (statements_of asset f). c = TxExec s)"
      proof (intro allI impI)
        fix c x
        assume "(c, x) \<in> set ?evs"
        then have "(c, x) \<in> set (?e0 # evs1) \<or> (c, x) \<in> set evs2" by auto
        then show "c = Exec createTableSql \<or> c = QueryRow existsSql \<or> c = QueryRow selectVersionSql \<or>
         c = Exec dropTableSql \<or> c = Begin \<or> c = Commit \<or> c = Rollback \<or>
         (\<exists>f \<in> set ?files. \<exists>s \<in> set (statements_of asset f). c = TxExec s)"
          using calls1 e2(2) by blast
      qed
      have fail1: "\<forall>c x. (c, x) \<in> set (?e0 # evs1) \<longrightarrow> x \<noteq> None \<longrightarrow> (\<exists>q. c = QueryRow q)"
        using e1(3) r1 None by auto
      have 4: "r = None \<longrightarrow>
         (\<forall>c x. (c, x) \<in> set ?evs \<longrightarrow> x \<noteq> None \<longrightarrow> c = Commit \<or> (\<exists>q. c = QueryRow q)) \<and>
         (\<forall>f \<in> set ?files. asset f \<noteq> None) \<and>
         (\<exists>pre. set pre \<subseteq> {Exec createTableSql, QueryRow existsSql,
                              QueryRow selectVersionSql, Exec dropTableSql} \<and>
            map fst ?evs = pre @ concat (map (unit_calls asset) ?files))"
      proof
        assume ok: "r = None"
        have a: "\<forall>c x. (c, x) \<in> set ?evs \<longrightarrow> x \<noteq> None \<longrightarrow> c = Commit \<or> (\<exists>q. c = QueryRow q)"
        proof (intro allI impI)
          fix c x
          assume "(c, x) \<in> set ?evs" and "x \<noteq> None"
          then have "((c, x) \<in> set (?e0 # evs1) \<or> (c, x) \<in> set evs2) \<and> x \<noteq> None" by auto
          then show "c = Commit \<or> (\<exists>q. c = QueryRow q)"
            using fail1 e2(3) ok by blast
        qed
        have b: "\<forall>f \<in> set ?files. asset f \<noteq> None" using e2(3) ok by blast
        have "set (map fst (?e0 # evs1)) \<subseteq> {Exec createTableSql, QueryRow existsSql,
                              QueryRow selectVersionSql, Exec dropTableSql}"
          using calls1 by auto
        moreover have "map fst ?evs =
            map fst (?e0 # evs1) @ concat (map (unit_calls asset) ?files)"
          using e2(3) ok by simp
        ultimately have c: "\<exists>pre. set pre \<subseteq> {Exec createTableSql, QueryRow existsSql,
                              QueryRow selectVersionSql, Exec dropTableSql} \<and>
            map fst ?evs = pre @ concat (map (unit_calls asset) ?files)"
          by blast
        from a b c show "(\<forall>c x. (c, x) \<in> set ?evs \<longrightarrow> x \<noteq> None \<longrightarrow> c = Commit \<or> (\<exists>q. c = QueryRow q)) \<and>
         (\<forall>f \<in> set ?files. asset f \<noteq> None) \<and>
         (\<exists>pre. set pre \<subseteq> {Exec createTableSql, QueryRow existsSql,
                              QueryRow selectVersionSql, Exec dropTableSql} \<and>
            map fst ?evs = pre @ concat (map (unit_calls asset) ?files))"
          by (intro conjI)
      qed
      have 5: "\<forall>c e. (c, Some e) \<in> set ?evs \<and>
         (c = Exec createTableSql \<or> c = Exec dropTableSql \<or> c = Begin \<or> (\<exists>s. c = TxExec s)) \<longrightarrow>
         r = Some e"
      proof (intro allI impI)
        fix c e
        assume h: "(c, Some e) \<in> set ?evs \<and>
         (c = Exec createTableSql \<or> c = Exec dropTableSql \<or> c = Begin \<or> (\<exists>s. c = TxExec s))"
        then have "(c, Some e) \<in> set (?e0 # evs1) \<or> (c, Some e) \<in> set evs2" by auto
        then show "r = Some e"
        proof
          assume "(c, Some e) \<in> set (?e0 # evs1)"
          with h rep1 have "r1 = Some e" by blast
          with r1 show ?thesis by simp
        next
          assume in2: "(c, Some e) \<in> set evs2"
          with e2(2) have "c = Begin \<or> c = Commit \<or> c = Rollback \<or> (\<exists>s. c = TxExec s)" by blast
          with h have "c = Begin \<or> (\<exists>s. c = TxExec s)" by auto
          with in2 e2(4) show ?thesis by blast
        qed
      qed
      have 6: "\<forall>e. r = Some e \<longrightarrow>
         (\<exists>c. (c, Some e) \<in> set ?evs \<and>
            (c = Exec createTableSql \<or> c = Exec dropTableSql \<or> c = Begin \<or> (\<exists>s. c = TxExec s))) \<or>
         (\<exists>f \<in> set ?files. asset f = None \<and> e = AssetNotFound f) \<or>
         (\<exists>dbVersion. e = MustUpgrade oldMigrationLastVersion dbVersion)"
      proof (intro allI impI)
        fix e
        assume "r = Some e"
        with e2(5) have "(\<exists>c. (c, Some e) \<in> set evs2 \<and> (c = Begin \<or> (\<exists>s. c = TxExec s))) \<or>
           (\<exists>f \<in> set ?files. asset f = None \<and> e = AssetNotFound f)" by blast
        then show "(\<exists>c. (c, Some e) \<in> set ?evs \<and>
            (c = Exec createTableSql \<or> c = Exec dropTableSql \<or> c = Begin \<or> (\<exists>s. c = TxExec s))) \<or>
         (\<exists>f \<in> set ?files. asset f = None \<and> e = AssetNotFound f) \<or>
         (\<exists>dbVersion. e = MustUpgrade oldMigrationLastVersion dbVersion)"
          by auto
      qed
      have 7: "\<forall>e. (QueryRow selectVersionSql, Some e) \<in> set ?evs \<longrightarrow>
         (\<exists>x w2. trace w2 = trace w @ [(Exec createTableSql, None), (QueryRow existsSql, x),
                                        (QueryRow selectVersionSql, Some e)] \<and>
            Up sem asset self w = Up_files sem asset ?files w2)"
      proof (intro allI impI)
        fix e
        assume "(QueryRow selectVersionSql, Some e) \<in> set ?evs"
        then have "(QueryRow selectVersionSql, Some e) \<in> set evs1 \<or>
            (QueryRow selectVersionSql, Some e) \<in> set evs2" by auto
        moreover have "(QueryRow selectVersionSql, Some e) \<notin> set evs2" using e2(2) by blast
        ultimately have "(QueryRow selectVersionSql, Some e) \<in> set evs1" by blast
        with e1(6) obtain x where
          "evs1 = [(QueryRow existsSql, x), (QueryRow selectVersionSql, Some e)]" by blast
        with tr1 None have "trace w2 = trace w @ [(Exec createTableSql, None),
            (QueryRow existsSql, x), (QueryRow selectVersionSql, Some e)]" by simp
        with up show "\<exists>x w2. trace w2 = trace w @ [(Exec createTableSql, None),
              (QueryRow existsSql, x), (QueryRow selectVersionSql, Some e)] \<and>
            Up sem asset self w = Up_files sem asset ?files w2" by blast
      qed
      have "?T ?evs" using 1 2 3 4 5 6 7 by (intro conjI)
      then have T: "\<exists>evs. ?T evs" by (rule exI [of ?T ?evs])
      have A: "faults w' = faults w \<and> r \<noteq> Some IndexOutOfRange"
        using a2 d1(1) d0(2) by simp
      from A T show ?thesis by (rule conjI)
    qed
  qed
  note A = all [THEN conjunct1]
  show "faults w' = faults w" using A by simp
  show "r \<noteq> Some IndexOutOfRange" using A by simp
  show "\<exists>evs. ?T evs" using all by (rule conjunct2)
qed

subsection \<open>The calls of a run, read off the trace\<close>

lemma Up_emitted:
  fixes sem asset self w
  defines "evs \<equiv> emitted w (snd (Up sem asset self w))"
    and "r \<equiv> fst (Up sem asset self w)"
  shows Up_first_call: "\<exists>x rest. evs = (Exec createTableSql, x) # rest"
    and Up_calls: "\<forall>c x. (c, x) \<in> set evs \<longrightarrow>
         c = Exec createTableSql \<or> c = QueryRow existsSql \<or> c = QueryRow selectVersionSql \<or>
         c = Exec dropTableSql \<or> c = Begin \<or> c = Commit \<or> c = Rollback \<or>
         (\<exists>f \<in> set (migrationFiles self). \<exists>s \<in> set (statements_of asset f). c = TxExec s)"
    and Up_success: "r = None \<longrightarrow>
         (\<forall>c x. (c, x) \<in> set evs \<longrightarrow> x \<noteq> None \<longrightarrow> c = Commit \<or> (\<exists>q. c = QueryRow q)) \<and>
         (\<forall>f \<in> set (migrationFiles self). asset f \<noteq> None) \<and>
         (\<exists>pre. set pre \<subseteq> {Exec createTableSql, QueryRow existsSql,
                              QueryRow selectVersionSql, Exec dropTableSql} \<and>
            map fst evs = pre @ concat (map (unit_calls asset) (migrationFiles self)))"
    and Up_reported: "\<forall>c e. (c, Some e) \<in> set evs \<and>
         (c = Exec createTableSql \<or> c = Exec dropTableSql \<or> c = Begin \<or> (\<exists>s. c = TxExec s)) \<longrightarrow>
         r = Some e"
    and Up_error_origin: "\<forall>e. r = Some e \<longrightarrow>
         (\<exists>c. (c, Some e) \<in> set evs \<and>
            (c = Exec createTableSql \<or> c = Exec dropTableSql \<or> c = Begin \<or> (\<exists>s. c = TxExec s))) \<or>
         (\<exists>f \<in> set (migrationFiles self). asset f = None \<and> e = AssetNotFound f) \<or>
         (\<exists>dbVersion. e = MustUpgrade oldMigrationLastVersion dbVersion)"
    and Up_unread: "\<forall>e. (QueryRow selectVersionSql, Some e) \<in> set evs \<longrightarrow>
         (\<exists>x w2. trace w2 = trace w @ [(Exec createTableSql, None), (QueryRow existsSql, x),
                                        (QueryRow selectVersionSql, Some e)] \<and>
            Up sem asset self w = Up_files sem asset (migrationFiles self) w2)"
proof -
  obtain r' w' where run: "Up sem asset self w = (r', w')" by (cases "Up sem asset self w") auto
  have r: "r = r'" by (simp add: r_def run)
  obtain evs' where T: "trace w' = trace w @ evs' \<and>
      (\<exists>x rest. evs' = (Exec createTableSql, x) # rest) \<and>
      (\<forall>c x. (c, x) \<in> set evs' \<longrightarrow>
         c = Exec createTableSql \<or> c = QueryRow existsSql \<or> c = QueryRow selectVersionSql \<or>
         c = Exec dropTableSql \<or> c = Begin \<or> c = Commit \<or> c = Rollback \<or>
         (\<exists>f \<in> set (migrationFiles self). \<exists>s \<in> set (statements_of asset f). c = TxExec s)) \<and>
      (r' = None \<longrightarrow>
         (\<forall>c x. (c, x) \<in> set evs' \<longrightarrow> x \<noteq> None \<longrightarrow> c = Commit \<or> (\<exists>q. c = QueryRow q)) \<and>
         (\<forall>f \<in> set (migrationFiles self). asset f \<noteq> None) \<and>
         (\<exists>pre. set pre \<subseteq> {Exec createTableSql, QueryRow existsSql,
                              QueryRow selectVersionSql, Exec dropTableSql} \<and>
            map fst evs' = pre @ concat (map (unit_calls asset) (migrationFiles self)))) \<and>
      (\<forall>c e. (c, Some e) \<in> set evs' \<and>
         (c = Exec createTableSql \<or> c = Exec dropTableSql \<or> c = Begin \<or> (\<exists>s. c = TxExec s)) \<longrightarrow>
         r' = Some e) \<and>
      (\<forall>e. r' = Some e \<longrightarrow>
         (\<exists>c. (c, Some e) \<in> set evs' \<and>
            (c = Exec createTableSql \<or> c = Exec dropTableSql \<or> c = Begin \<or> (\<exists>s. c = TxExec s))) \<or>
         (\<exists>f \<in> set (migrationFiles self). asset f = None \<and> e = AssetNotFound f) \<or>
         (\<exists>dbVersion. e = MustUpgrade oldMigrationLastVersion dbVersion)) \<and>
      (\<forall>e. (QueryRow selectVersionSql, Some e) \<in> set evs' \<longrightarrow>
         (\<exists>x w2. trace w2 = trace w @ [(Exec createTableSql, None), (QueryRow existsSql, x),
                                        (QueryRow selectVersionSql, Some e)] \<and>
            Up sem asset self w = Up_files sem asset (migrationFiles self) w2))"
    using Up_D(3) [OF run] by (rule exE)
  have "emitted w w' = evs'" using T [THEN conjunct1] by (rule emitted_append)
  then have e: "evs = evs'" by (simp add: evs_def run)
  show "\<exists>x rest. evs = (Exec createTableSql, x) # rest"
    unfolding e r using T [THEN conjunct2, THEN conjunct1] .
  show "\<forall>c x. (c, x) \<in> set evs \<longrightarrow>
         c = Exec createTableSql \<or> c = QueryRow existsSql \<or> c = QueryRow selectVersionSql \<or>
         c = Exec dropTableSql \<or> c = Begin \<or> c = Commit \<or> c = Rollback \<or>
         (\<exists>f \<in> set (migrationFiles self). \<exists>s \<in> set (statements_of asset f). c = TxExec s)"
    unfolding e r using T [THEN conjunct2, THEN conjunct2, THEN conjunct1] .
  show "r = None \<longrightarrow>
         (\<forall>c x. (c, x) \<in> set evs \<longrightarrow> x \<noteq> None \<longrightarrow> c = Commit \<or> (\<exists>q. c = QueryRow q)) \<and>
         (\<forall>f \<in> set (migrationFiles self). asset f \<noteq> None) \<and>
         (\<exists>pre. set pre \<subseteq> {Exec createTableSql, QueryRow existsSql,
                              QueryRow selectVersionSql, Exec dropTableSql} \<and>
            map fst evs = pre @ concat (map (unit_calls asset) (migrationFiles self)))"
    unfolding e r using T [THEN conjunct2, THEN conjunct2, THEN conjunct2, THEN conjunct1] .
  show "\<forall>c e. (c, Some e) \<in> set evs \<and>
         (c = Exec createTableSql \<or> c = Exec dropTableSql \<or> c = Begin \<or> (\<exists>s. c = TxExec s)) \<longrightarrow>
         r = Some e"
    unfolding e r
    using T [THEN conjunct2, THEN conjunct2, THEN conjunct2, THEN conjunct2, THEN conjunct1] .
  show "\<forall>e. r = Some e \<longrightarrow>
         (\<exists>c. (c, Some e) \<in> set evs \<and>
            (c = Exec createTableSql \<or> c = Exec dropTableSql \<or> c = Begin \<or> (\<exists>s. c = TxExec s))) \<or>
         (\<exists>f \<in> set (migrationFiles self). asset f = None \<and> e = AssetNotFound f) \<or>
         (\<exists>dbVersion. e = MustUpgrade oldMigrationLastVersion dbVersion)"
    unfolding e r
    using T [THEN conjunct2, THEN conjunct2, THEN conjunct2, THEN conjunct2, THEN conjunct2,
             THEN conjunct1] .
  show "\<forall>e. (QueryRow selectVersionSql, Some e) \<in> set evs \<longrightarrow>
         (\<exists>x w2. trace w2 = trace w @ [(Exec createTableSql, None), (QueryRow existsSql, x),
                                        (QueryRow selectVersionSql, Some e)] \<and>
            Up sem asset self w = Up_files sem asset (migrationFiles self) w2)"
    unfolding e r
    using T [THEN conjunct2, THEN conjunct2, THEN conjunct2, THEN conjunct2, THEN conjunct2,
             THEN conjunct2] .
qed

lemma Up_rows:
  assumes keep: "\<forall>f \<in> set (migrationFiles self). \<forall>s \<in> set (statements_of asset f).
       \<forall>st st'. sem s st = Some st' \<longrightarrow> set (version_rows st') \<subseteq> set (version_rows st)"
  shows "set (version_rows (committed (snd (Up sem asset self w)))) \<subseteq> set (version_rows (committed w))"
proof -
  obtain r0 w1 where p0: "db_Exec sem createTableSql w = (r0, w1)"
    by (cases "db_Exec sem createTableSql w") auto
  have rows0: "set (version_rows (committed w1)) \<subseteq> set (version_rows (committed w))"
  proof (cases r0)
    case None
    then have "sql_exec sem createTableSql (committed w) = Inr (committed w1)"
      using db_Exec_D(5) [OF p0] by simp
    then have c: "committed w1 =
        (case fst (committed w) of None \<Rightarrow> Some [] | Some rows \<Rightarrow> Some rows, snd (committed w))"
      by simp
    show ?thesis by (simp add: c version_rows_def split: option.splits)
  next
    case (Some e)
    then show ?thesis using db_Exec_D(4) [OF p0] by simp
  qed
  show ?thesis
  proof (cases r0)
    case (Some e)
    with p0 have "snd (Up sem asset self w) = w1" by (simp add: Up_eq)
    with rows0 show ?thesis by simp
  next
    case None
    obtain v r1 w2 where p1: "checkLegacyVersion sem w1 = ((v, r1), w2)"
      by (cases "checkLegacyVersion sem w1") auto
    have rows1: "set (version_rows (committed w2)) \<subseteq> set (version_rows (committed w1))"
      using checkLegacyVersion_D(3) [OF p1] by (auto simp: version_rows_def)
    show ?thesis
    proof (cases r1)
      case (Some e)
      with p0 p1 None have "snd (Up sem asset self w) = w2" by (simp add: Up_eq)
      with rows0 rows1 show ?thesis by auto
    next
      case r1: None
      obtain r w' where p2: "Up_files sem asset (migrationFiles self) w2 = (r, w')"
        by (cases "Up_files sem asset (migrationFiles self) w2") auto
      have "snd (Up sem asset self w) = w'" using p0 p1 None r1 p2 by (simp add: Up_eq)
      moreover have "set (version_rows (committed w')) \<subseteq> set (version_rows (committed w2))"
        using Up_files_rows [OF keep p2] .
      ultimately show ?thesis using rows0 rows1 by auto
    qed
  qed
qed

section \<open>The claims\<close>

subsection \<open>Calling Up twice\<close>

text \<open>
  C1, as amended. The claim says that a second \<open>Up\<close> after a successful one inserts no
  row, re-executes no statement and returns no error. What holds, for a first \<open>Up\<close>
  that succeeded on a connection without faults and left the version table without
  rows (as it does on a fresh database when no unit body writes to
  \<open>migration_version\<close>): the
  second \<open>Up\<close> sends no \<open>INSERT\<close> of its own, every statement it sends being the
  ensure-table statement, a legacy read or drop, or a statement of a unit body; but it
  is the whole loop over \<open>migrationFiles\<close> run again after the ensure-table and
  legacy calls. It begins a transaction for the first migration file and sends its
  first statement; it returns the error of a unit statement that fails this time; and
  if it returns no error it has sent every statement of every unit again.
\<close>

theorem second_Up_runs_the_units_again:
  assumes "faults w = []"
    and "Up sem asset self w = (None, w1)"
    and "version_rows (committed w1) = []"
    and "migrationFiles self = migration # rest"
    and "Up sem asset self w1 = (r2, w2)"
  shows "(r2, w2) =
           Up_files sem asset (migrationFiles self)
             (w1\<lparr>committed := (Some [], snd (committed w1)),
                 trace := trace w1 @ [(Exec createTableSql, None), (QueryRow existsSql, None),
                                      (QueryRow selectVersionSql, Some ErrNoRows)]\<rparr>) \<and>
         (Begin, None) \<in> set (emitted w1 w2) \<and>
         (\<exists>x. (TxExec (hd (statements_of asset migration)), x) \<in> set (emitted w1 w2)) \<and>
         (\<forall>s e. (TxExec s, Some e) \<in> set (emitted w1 w2) \<longrightarrow> r2 = Some e) \<and>
         (r2 = None \<longrightarrow>
            map fst (emitted w1 w2) =
              [Exec createTableSql, QueryRow existsSql, QueryRow selectVersionSql] @
              concat (map (unit_calls asset) (migrationFiles self))) \<and>
         (\<forall>c x. (c, x) \<in> set (emitted w1 w2) \<longrightarrow>
            c = Exec createTableSql \<or> c = QueryRow existsSql \<or> c = QueryRow selectVersionSql \<or>
            c = Exec dropTableSql \<or> c = Begin \<or> c = Commit \<or> c = Rollback \<or>
            (\<exists>f \<in> set (migrationFiles self). \<exists>s \<in> set (statements_of asset f). c = TxExec s))"
proof -
  let ?files = "migrationFiles self"
  have nf1: "faults w1 = []" using Up_D(1) [OF assms(2)] assms(1) by simp
  have "\<forall>f \<in> set ?files. asset f \<noteq> None"
    using Up_success [of sem asset self w] assms(2) by simp
  then obtain body where body: "asset migration = Some body" using assms(4) by auto
  then have so: "statements_of asset migration = strings_Split body (CHR '';'')"
    by (simp add: statements_of_def ParseFile_def)
  let ?pre = "[(Exec createTableSql, None), (QueryRow existsSql, None),
               (QueryRow selectVersionSql, Some ErrNoRows)]"
  let ?w1' = "w1\<lparr>committed := (Some [], snd (committed w1)), trace := trace w1 @ ?pre\<rparr>"
  have up2: "Up sem asset self w1 = Up_files sem asset ?files ?w1'"
    using Up_fresh [OF nf1 assms(3)] .
  then have run2: "Up_files sem asset ?files ?w1' = (r2, w2)" using assms(5) by simp
  have nfy: "\<not> faulty ?w1'" using nf1 by (simp add: faulty_def)
  note d2 = Up_files_D [OF run2]
  obtain evs where T: "trace w2 = trace ?w1' @ evs \<and>
        (\<forall>c x. (c, x) \<in> set evs \<longrightarrow> c = Begin \<or> c = Commit \<or> c = Rollback \<or>
           (\<exists>f \<in> set ?files. \<exists>s \<in> set (statements_of asset f). c = TxExec s)) \<and>
        (r2 = None \<longrightarrow> map fst evs = concat (map (unit_calls asset) ?files) \<and>
           (\<forall>c x. (c, x) \<in> set evs \<longrightarrow> x \<noteq> None \<longrightarrow> c = Commit) \<and>
           (\<forall>f \<in> set ?files. asset f \<noteq> None)) \<and>
        (\<forall>c e. (c, Some e) \<in> set evs \<and> (c = Begin \<or> (\<exists>s. c = TxExec s)) \<longrightarrow> r2 = Some e) \<and>
        (\<forall>e. r2 = Some e \<longrightarrow>
           (\<exists>c. (c, Some e) \<in> set evs \<and> (c = Begin \<or> (\<exists>s. c = TxExec s))) \<or>
           (\<exists>f \<in> set ?files. asset f = None \<and> e = AssetNotFound f)) \<and>
        (\<forall>f fs body. \<not> faulty ?w1' \<and> ?files = f # fs \<and> asset f = Some body \<longrightarrow>
           (Begin, None) \<in> set evs \<and> (\<exists>x. (TxExec (hd (strings_Split body (CHR '';''))), x) \<in> set evs))"
    using d2 [THEN conjunct2] by (rule exE)
  note tr = T [THEN conjunct1]
  note ok = T [THEN conjunct2, THEN conjunct2, THEN conjunct1]
  note rep = T [THEN conjunct2, THEN conjunct2, THEN conjunct2, THEN conjunct1]
  note fst_unit = T [THEN conjunct2, THEN conjunct2, THEN conjunct2, THEN conjunct2, THEN conjunct2]
  have "trace w2 = trace w1 @ (?pre @ evs)" using tr by simp
  then have em: "emitted w1 w2 = ?pre @ evs" by (rule emitted_append)
  have 1: "(r2, w2) = Up_files sem asset ?files ?w1'" using run2 by simp
  have b: "(Begin, None) \<in> set evs \<and>
      (\<exists>x. (TxExec (hd (strings_Split body (CHR '';''))), x) \<in> set evs)"
    using fst_unit nfy assms(4) body by blast
  have 2: "(Begin, None) \<in> set (emitted w1 w2)" using b by (simp add: em)
  have 3: "\<exists>x. (TxExec (hd (statements_of asset migration)), x) \<in> set (emitted w1 w2)"
    using b by (auto simp: em so)
  have 4: "\<forall>s e. (TxExec s, Some e) \<in> set (emitted w1 w2) \<longrightarrow> r2 = Some e"
  proof (intro allI impI)
    fix s e
    assume "(TxExec s, Some e) \<in> set (emitted w1 w2)"
    then have "(TxExec s, Some e) \<in> set evs" by (simp add: em)
    with rep show "r2 = Some e" by blast
  qed
  have 5: "r2 = None \<longrightarrow>
            map fst (emitted w1 w2) =
              [Exec createTableSql, QueryRow existsSql, QueryRow selectVersionSql] @
              concat (map (unit_calls asset) ?files)"
    using ok by (simp add: em)
  have 6: "\<forall>c x. (c, x) \<in> set (emitted w1 w2) \<longrightarrow>
            c = Exec createTableSql \<or> c = QueryRow existsSql \<or> c = QueryRow selectVersionSql \<or>
            c = Exec dropTableSql \<or> c = Begin \<or> c = Commit \<or> c = Rollback \<or>
            (\<exists>f \<in> set ?files. \<exists>s \<in> set (statements_of asset f). c = TxExec s)"
    using Up_calls [of w1 sem asset self] assms(5) by simp
  from 1 2 3 4 5 6 show ?thesis by (intro conjI)
qed

theorem second_Up_runs_the_units_again_witness:
  "faults (opened (None, []) [] :: string list conn) = []
   \<and> Up sql_once (map_of [(''2_create_baz.up.sql'', ''CREATE TABLE baz (id int)'')])
          (catalogue [(''2_create_baz.up.sql'', ''CREATE TABLE baz (id int)'')])
          (opened (None, []) []) =
        (None,
         \<lparr>committed = (Some [], [''CREATE TABLE baz (id int)'']),
          trace = [(Exec createTableSql, None), (QueryRow existsSql, None),
                   (QueryRow selectVersionSql, Some ErrNoRows), (Begin, None),
                   (TxExec ''CREATE TABLE baz (id int)'', None), (Commit, None)],
          faults = []\<rparr>)
   \<and> version_rows (Some [], [''CREATE TABLE baz (id int)'']) = []
   \<and> migrationFiles (catalogue [(''2_create_baz.up.sql'', ''CREATE TABLE baz (id int)'')])
       = ''2_create_baz.up.sql'' # []
   \<and> Up sql_once (map_of [(''2_create_baz.up.sql'', ''CREATE TABLE baz (id int)'')])
          (catalogue [(''2_create_baz.up.sql'', ''CREATE TABLE baz (id int)'')])
          \<lparr>committed = (Some [], [''CREATE TABLE baz (id int)'']),
           trace = [(Exec createTableSql, None), (QueryRow existsSql, None),
                    (QueryRow selectVersionSql, Some ErrNoRows), (Begin, None),
                    (TxExec ''CREATE TABLE baz (id int)'', None), (Commit, None)],
           faults = []\<rparr> =
        (Some (StatementRejected ''CREATE TABLE baz (id int)''),
         \<lparr>committed = (Some [], [''CREATE TABLE baz (id int)'']),
          trace = [(Exec createTableSql, None), (QueryRow existsSql, None),
                   (QueryRow selectVersionSql, Some ErrNoRows), (Begin, None),
                   (TxExec ''CREATE TABLE baz (id int)'', None), (Commit, None),
                   (Exec createTableSql, None), (QueryRow existsSql, None),
                   (QueryRow selectVersionSql, Some ErrNoRows), (Begin, None),
                   (TxExec ''CREATE TABLE baz (id int)'',
                    Some (StatementRejected ''CREATE TABLE baz (id int)'')),
                   (Rollback, None)],
          faults = []\<rparr>)
   \<and> (Begin, None)
       \<in> set (emitted
            \<lparr>committed = (Some [], [''CREATE TABLE baz (id int)'']),
             trace = [(Exec createTableSql, None), (QueryRow existsSql, None),
                      (QueryRow selectVersionSql, Some ErrNoRows), (Begin, None),
                      (TxExec ''CREATE TABLE baz (id int)'', None), (Commit, None)],
             faults = []\<rparr>
            \<lparr>committed = (Some [], [''CREATE TABLE baz (id int)'']),
             trace = [(Exec createTableSql, None), (QueryRow existsSql, None),
                      (QueryRow selectVersionSql, Some ErrNoRows), (Begin, None),
                      (TxExec ''CREATE TABLE baz (id int)'', None), (Commit, None),
                      (Exec createTableSql, None), (QueryRow existsSql, None),
                      (QueryRow selectVersionSql, Some ErrNoRows), (Begin, None),
                      (TxExec ''CREATE TABLE baz (id int)'',
                       Some (StatementRejected ''CREATE TABLE baz (id int)'')),
                      (Rollback, None)],
             faults = []\<rparr>)"
proof -
  let ?a = "map_of [(''2_create_baz.up.sql'', ''CREATE TABLE baz (id int)'')]"
  let ?m = "catalogue [(''2_create_baz.up.sql'', ''CREATE TABLE baz (id int)'')]"
  let ?w = "opened (None, []) [] :: string list conn"
  let ?t1 = "[(Exec createTableSql, None), (QueryRow existsSql, None),
              (QueryRow selectVersionSql, Some ErrNoRows), (Begin, None),
              (TxExec ''CREATE TABLE baz (id int)'', None), (Commit, None)]"
  let ?w1 = "\<lparr>committed = (Some [], [''CREATE TABLE baz (id int)'']), trace = ?t1,
             faults = []\<rparr> :: string list conn"
  let ?w2 = "\<lparr>committed = (Some [], [''CREATE TABLE baz (id int)'']),
             trace = ?t1 @ [(Exec createTableSql, None), (QueryRow existsSql, None),
                   (QueryRow selectVersionSql, Some ErrNoRows), (Begin, None),
                   (TxExec ''CREATE TABLE baz (id int)'',
                    Some (StatementRejected ''CREATE TABLE baz (id int)'')),
                   (Rollback, None)],
             faults = []\<rparr> :: string list conn"
  have h1: "faults ?w = []" by (simp add: opened_def)
  have h2: "Up sql_once ?a ?m ?w = (None, ?w1)" by code_simp
  have h3: "version_rows (committed ?w1) = []" by (simp add: version_rows_def)
  have h4: "migrationFiles ?m = ''2_create_baz.up.sql'' # []" by (simp add: catalogue_def)
  have h5: "Up sql_once ?a ?m ?w1 = (Some (StatementRejected ''CREATE TABLE baz (id int)''), ?w2)"
    by code_simp
  from second_Up_runs_the_units_again [OF h1 h2 h3 h4 h5]
  have c: "(Begin, None) \<in> set (emitted ?w1 ?w2)" by blast
  have h3': "version_rows (Some [], [''CREATE TABLE baz (id int)'']) = []"
    by (simp add: version_rows_def)
  from h1 h2 h3' h4 h5 c show ?thesis by simp
qed

text \<open>
  C1 as stated fails: with one unit that creates a table, the first \<open>Up\<close> succeeds, and
  the second sends the same statement again and returns the error of the database that
  rejects it.
\<close>

theorem second_Up_fails_on_applied_unit:
  "fst (Up sql_once (map_of [(''1_create_foo.up.sql'', ''CREATE TABLE foo (id int)'')])
          (catalogue [(''1_create_foo.up.sql'', ''CREATE TABLE foo (id int)'')])
          (opened (None, []) [])) = None
   \<and> fst (Up sql_once (map_of [(''1_create_foo.up.sql'', ''CREATE TABLE foo (id int)'')])
          (catalogue [(''1_create_foo.up.sql'', ''CREATE TABLE foo (id int)'')])
          (snd (Up sql_once (map_of [(''1_create_foo.up.sql'', ''CREATE TABLE foo (id int)'')])
                 (catalogue [(''1_create_foo.up.sql'', ''CREATE TABLE foo (id int)'')])
                 (opened (None, []) []))))
       = Some (StatementRejected ''CREATE TABLE foo (id int)'')
   \<and> emitted
        (snd (Up sql_once (map_of [(''1_create_foo.up.sql'', ''CREATE TABLE foo (id int)'')])
               (catalogue [(''1_create_foo.up.sql'', ''CREATE TABLE foo (id int)'')])
               (opened (None, []) [])))
        (snd (Up sql_once (map_of [(''1_create_foo.up.sql'', ''CREATE TABLE foo (id int)'')])
               (catalogue [(''1_create_foo.up.sql'', ''CREATE TABLE foo (id int)'')])
               (snd (Up sql_once (map_of [(''1_create_foo.up.sql'', ''CREATE TABLE foo (id int)'')])
                      (catalogue [(''1_create_foo.up.sql'', ''CREATE TABLE foo (id int)'')])
                      (opened (None, []) [])))))
       = [(Exec createTableSql, None), (QueryRow existsSql, None),
          (QueryRow selectVersionSql, Some ErrNoRows), (Begin, None),
          (TxExec ''CREATE TABLE foo (id int)'', Some (StatementRejected ''CREATE TABLE foo (id int)'')),
          (Rollback, None)]"
  by code_simp

text \<open>
  The condition on the version table matters: a unit body that itself inserts the row 5
  makes the second \<open>Up\<close> stop at the legacy check, with the error for version 5.
\<close>

lemma unit_body_inserts_a_row:
  "Up sql_once
     (map_of [(''5_record.up.sql'', ''INSERT INTO migration_version (version) VALUES (5)'')])
     (catalogue [(''5_record.up.sql'', ''INSERT INTO migration_version (version) VALUES (5)'')])
     (opened (None, []) []) =
   (None,
    \<lparr>committed = (Some [VInt 5], []),
     trace = [(Exec createTableSql, None), (QueryRow existsSql, None),
              (QueryRow selectVersionSql, Some ErrNoRows), (Begin, None),
              (TxExec ''INSERT INTO migration_version (version) VALUES (5)'', None),
              (Commit, None)],
     faults = []\<rparr>)
   \<and> Up sql_once
     (map_of [(''5_record.up.sql'', ''INSERT INTO migration_version (version) VALUES (5)'')])
     (catalogue [(''5_record.up.sql'', ''INSERT INTO migration_version (version) VALUES (5)'')])
     \<lparr>committed = (Some [VInt 5], []),
      trace = [(Exec createTableSql, None), (QueryRow existsSql, None),
               (QueryRow selectVersionSql, Some ErrNoRows), (Begin, None),
               (TxExec ''INSERT INTO migration_version (version) VALUES (5)'', None),
               (Commit, None)],
      faults = []\<rparr> =
   (Some (MustUpgrade 189 5),
    \<lparr>committed = (Some [VInt 5], []),
     trace = [(Exec createTableSql, None), (QueryRow existsSql, None),
              (QueryRow selectVersionSql, Some ErrNoRows), (Begin, None),
              (TxExec ''INSERT INTO migration_version (version) VALUES (5)'', None),
              (Commit, None),
              (Exec createTableSql, None), (QueryRow existsSql, None),
              (QueryRow selectVersionSql, None)],
     faults = []\<rparr>)"
  by code_simp

subsection \<open>Which units run, and in which order\<close>

text \<open>
  C2, as amended. The claim says that \<open>Up\<close> runs exactly the units whose key is above
  the current version and the legacy floor, in ascending key order. What holds: when
  \<open>Up\<close> returns no error, the calls it made are those of the table and legacy steps
  followed, for every file of \<open>migrationFiles\<close> in the order of the list, by one
  transaction with all statements of the file, ended by its \<open>Commit\<close> before the next
  file's \<open>Begin\<close>. No key, version or floor is consulted.
\<close>

theorem Up_runs_every_unit_in_list_order:
  "fst (Up sem asset self w) = None \<Longrightarrow>
     \<exists>pre. set pre \<subseteq> {Exec createTableSql, QueryRow existsSql,
                        QueryRow selectVersionSql, Exec dropTableSql} \<and>
       map fst (emitted w (snd (Up sem asset self w))) =
         pre @ concat (map (unit_calls asset) (migrationFiles self))"
  using Up_success [of sem asset self w] by blast

theorem Up_runs_every_unit_in_list_order_witness:
  "fst (Up sql_once
          (map_of [(''20_add_b.up.sql'', ''ALTER TABLE a ADD COLUMN b int''),
                   (''10_create_a.up.sql'', ''CREATE TABLE a (id int);CREATE INDEX a_id ON a (id)'')])
          \<lparr>lockFactory = False, migrationFiles = [''20_add_b.up.sql'', ''10_create_a.up.sql'']\<rparr>
          (opened (None, []) [])) = None
   \<and> (\<exists>pre. set pre \<subseteq> {Exec createTableSql, QueryRow existsSql,
                           QueryRow selectVersionSql, Exec dropTableSql} \<and>
         map fst (emitted (opened (None, []) [])
           (snd (Up sql_once
              (map_of [(''20_add_b.up.sql'', ''ALTER TABLE a ADD COLUMN b int''),
                       (''10_create_a.up.sql'', ''CREATE TABLE a (id int);CREATE INDEX a_id ON a (id)'')])
              \<lparr>lockFactory = False, migrationFiles = [''20_add_b.up.sql'', ''10_create_a.up.sql'']\<rparr>
              (opened (None, []) [])))) =
         pre @ [Begin, TxExec ''ALTER TABLE a ADD COLUMN b int'', Commit,
                Begin, TxExec ''CREATE TABLE a (id int)'', TxExec ''CREATE INDEX a_id ON a (id)'', Commit])"
proof -
  let ?a = "map_of [(''20_add_b.up.sql'', ''ALTER TABLE a ADD COLUMN b int''),
                   (''10_create_a.up.sql'', ''CREATE TABLE a (id int);CREATE INDEX a_id ON a (id)'')]"
  let ?m = "\<lparr>lockFactory = False, migrationFiles = [''20_add_b.up.sql'', ''10_create_a.up.sql'']\<rparr>"
  let ?w = "opened (None, []) [] :: string list conn"
  have h: "fst (Up sql_once ?a ?m ?w) = None" by code_simp
  have u: "concat (map (unit_calls ?a) (migrationFiles ?m)) =
      [Begin, TxExec ''ALTER TABLE a ADD COLUMN b int'', Commit,
       Begin, TxExec ''CREATE TABLE a (id int)'', TxExec ''CREATE INDEX a_id ON a (id)'', Commit]"
    by (simp add: unit_calls_def statements_of_def ParseFile_def)
  from Up_runs_every_unit_in_list_order [OF h] show ?thesis
    unfolding u using h by blast
qed

text \<open>
  C2 as stated fails: on a database at legacy version 189 the floor is 1510262030 and
  \<open>CurrentVersion\<close> gives 0, and \<open>Up\<close> still runs the unit with key 189.
\<close>

theorem Up_ignores_version_floor:
  "max (fst (fst (CurrentVersion sql_once (opened (Some [VInt 189], []) []))))
       (fst (fst (checkLegacyVersion sql_once (opened (Some [VInt 189], []) [])))) = 1510262030
   \<and> unit_key ''189_drop_old.up.sql'' = 189
   \<and> map fst (trace (snd (Up sql_once
         (map_of [(''189_drop_old.up.sql'', ''DROP TABLE old''),
                  (''1510262031_create_new.up.sql'', ''CREATE TABLE new (id int)'')])
         (catalogue [(''189_drop_old.up.sql'', ''DROP TABLE old''),
                     (''1510262031_create_new.up.sql'', ''CREATE TABLE new (id int)'')])
         (opened (Some [VInt 189], []) [])))) =
       [Exec createTableSql, QueryRow existsSql, QueryRow selectVersionSql, Exec dropTableSql,
        Begin, TxExec ''DROP TABLE old'', Commit,
        Begin, TxExec ''CREATE TABLE new (id int)'', Commit]"
  by code_simp

subsection \<open>Recording applied versions\<close>

text \<open>
  C3, as amended. The claim says that \<open>Up\<close> inserts a row with the key of every unit it
  applied. What holds: \<open>Up\<close> sends no \<open>INSERT\<close> of its own. Every call it makes is the
  ensure-table statement, one of the two legacy reads, the drop of the legacy table, a
  \<open>Begin\<close>, \<open>Commit\<close> or \<open>Rollback\<close>, or a statement of the body of one of the
  migration files, sent inside that file's transaction. So if no statement of a unit
  body adds a row to \<open>migration_version\<close>, the rows of the table after \<open>Up\<close> are
  among the rows before it.
\<close>

theorem Up_sends_no_insert_of_its_own:
  "(\<forall>c x. (c, x) \<in> set (emitted w (snd (Up sem asset self w))) \<longrightarrow>
      c = Exec createTableSql \<or> c = QueryRow existsSql \<or> c = QueryRow selectVersionSql \<or>
      c = Exec dropTableSql \<or> c = Begin \<or> c = Commit \<or> c = Rollback \<or>
      (\<exists>f \<in> set (migrationFiles self). \<exists>s \<in> set (statements_of asset f). c = TxExec s)) \<and>
   ((\<forall>f \<in> set (migrationFiles self). \<forall>s \<in> set (statements_of asset f).
       \<forall>st st'. sem s st = Some st' \<longrightarrow> set (version_rows st') \<subseteq> set (version_rows st)) \<longrightarrow>
    set (version_rows (committed (snd (Up sem asset self w)))) \<subseteq> set (version_rows (committed w)))"
  using Up_calls [of w sem asset self] Up_rows [of self asset sem w] by blast

theorem Up_sends_no_insert_of_its_own_witness:
  "set (version_rows (committed (snd (Up sql_once
            (map_of [(''5_create_xyz.up.sql'', ''CREATE TABLE xyz (id int)'')])
            (catalogue [(''5_create_xyz.up.sql'', ''CREATE TABLE xyz (id int)'')])
            (opened (Some [VText ''189''], []) [])))))
       \<subseteq> set (version_rows (committed (opened (Some [VText ''189''], []) [] :: string list conn)))
   \<and> (TxExec ''CREATE TABLE xyz (id int)'', None)
       \<in> set (emitted (opened (Some [VText ''189''], []) [])
            (snd (Up sql_once
              (map_of [(''5_create_xyz.up.sql'', ''CREATE TABLE xyz (id int)'')])
              (catalogue [(''5_create_xyz.up.sql'', ''CREATE TABLE xyz (id int)'')])
              (opened (Some [VText ''189''], []) []))))
   \<and> statements_of (map_of [(''5_create_xyz.up.sql'', ''CREATE TABLE xyz (id int)'')])
         ''5_create_xyz.up.sql'' = [''CREATE TABLE xyz (id int)'']"
proof -
  let ?a = "map_of [(''5_create_xyz.up.sql'', ''CREATE TABLE xyz (id int)'')]"
  let ?m = "catalogue [(''5_create_xyz.up.sql'', ''CREATE TABLE xyz (id int)'')]"
  let ?w = "opened (Some [VText ''189''], []) [] :: string list conn"
  have nv: "inserted_value ''CREATE TABLE xyz (id int)'' = None" by code_simp
  have keep: "\<forall>f \<in> set (migrationFiles ?m). \<forall>s \<in> set (statements_of ?a f).
      \<forall>st st'. sql_once s st = Some st' \<longrightarrow> set (version_rows st') \<subseteq> set (version_rows st)"
    using nv
    by (auto simp: catalogue_def statements_of_def ParseFile_def sql_once_def version_rows_def
          split: if_splits)
  have ex: "(TxExec ''CREATE TABLE xyz (id int)'', None) \<in> set (emitted ?w (snd (Up sql_once ?a ?m ?w)))"
    by code_simp
  from Up_sends_no_insert_of_its_own [of ?w sql_once ?a ?m] keep
  have "set (version_rows (committed (snd (Up sql_once ?a ?m ?w)))) \<subseteq> set (version_rows (committed ?w))"
    by blast
  moreover have "statements_of ?a ''5_create_xyz.up.sql'' = [''CREATE TABLE xyz (id int)'']"
    by (simp add: statements_of_def ParseFile_def)
  ultimately show ?thesis using ex by blast
qed

text \<open>
  C3 as stated fails: \<open>Up\<close> applies the unit with key 1 on an empty version table and
  returns no error, and the table has no row afterwards.
\<close>

theorem Up_records_no_version:
  "fst (Up sql_once (map_of [(''1_create_foo.up.sql'', ''CREATE TABLE foo (id int)'')])
          (catalogue [(''1_create_foo.up.sql'', ''CREATE TABLE foo (id int)'')])
          (opened (Some [], []) [])) = None
   \<and> committed (snd (Up sql_once (map_of [(''1_create_foo.up.sql'', ''CREATE TABLE foo (id int)'')])
          (catalogue [(''1_create_foo.up.sql'', ''CREATE TABLE foo (id int)'')])
          (opened (Some [], []) []))) = (Some [], [''CREATE TABLE foo (id int)''])
   \<and> unit_key ''1_create_foo.up.sql'' = 1
   \<and> version_rows (committed (snd (Up sql_once
            (map_of [(''1_create_foo.up.sql'', ''CREATE TABLE foo (id int)'')])
            (catalogue [(''1_create_foo.up.sql'', ''CREATE TABLE foo (id int)'')])
            (opened (Some [], []) [])))) = []"
  by code_simp

subsection \<open>The migration lock\<close>

text \<open>
  C4, as amended. The claim says that \<open>Up\<close> acquires the migration lock before it
  touches the schema and releases it on every path. What holds: \<open>Up\<close> makes no call to
  the lock at all, whether a \<open>lockFactory\<close> was supplied or not; the first call it
  makes is the \<open>CREATE TABLE IF NOT EXISTS\<close> of the version table.
\<close>

theorem Up_never_locks:
  "LockAcquire \<notin> fst ` set (emitted w (snd (Up sem asset self w))) \<and>
   LockRelease \<notin> fst ` set (emitted w (snd (Up sem asset self w))) \<and>
   fst (hd (emitted w (snd (Up sem asset self w)))) = Exec createTableSql"
proof -
  have "fst (hd (emitted w (snd (Up sem asset self w)))) = Exec createTableSql"
    using Up_first_call [of w sem asset self] by auto
  moreover have "\<And>c x. (c, x) \<in> set (emitted w (snd (Up sem asset self w))) \<Longrightarrow>
      c \<noteq> LockAcquire \<and> c \<noteq> LockRelease"
    using Up_calls [of w sem asset self] by blast
  ultimately show ?thesis by force
qed

text \<open>
  C4 as stated fails: with a lock factory supplied, \<open>Up\<close> creates the version table
  and runs a unit, and none of its calls acquires the lock.
\<close>

theorem Up_writes_without_lock:
  "map fst (trace (snd (Up sql_once (map_of [(''1_create_bar.up.sql'', ''CREATE TABLE bar (id int)'')])
          \<lparr>lockFactory = True, migrationFiles = [''1_create_bar.up.sql'']\<rparr>
          (opened (None, []) [])))) =
     [Exec createTableSql, QueryRow existsSql, QueryRow selectVersionSql,
      Begin, TxExec ''CREATE TABLE bar (id int)'', Commit]
   \<and> LockAcquire \<notin> set (map fst (trace (snd (Up sql_once
          (map_of [(''1_create_bar.up.sql'', ''CREATE TABLE bar (id int)'')])
          \<lparr>lockFactory = True, migrationFiles = [''1_create_bar.up.sql'']\<rparr>
          (opened (None, []) [])))))"
  by code_simp

subsection \<open>The current version\<close>

text \<open>
  C5. \<open>CurrentVersion\<close> should return the greatest version in the table. It sends a
  query and drops its result: the version returned is 0 whatever the table holds, and
  it is 0 without error on a table whose only row is 1510262030.
\<close>

theorem CurrentVersion_ignores_table:
  "fst (fst (CurrentVersion sem w)) = 0 \<and>
   fst (CurrentVersion sem (opened (Some [VInt 1510262030], u) [])) = (0, None)"
proof -
  have "fst (fst (CurrentVersion sem w)) = 0"
    by (simp add: CurrentVersion_eq split: prod.splits option.splits)
  moreover have "fst (CurrentVersion sem (opened (Some [VInt 1510262030], u) [])) = (0, None)"
    by (simp add: CurrentVersion_eq opened_def db_Exec_def faulty_def logged_def)
  ultimately show ?thesis ..
qed

subsection \<open>The sentinel\<close>

text \<open>
  C6. The sentinel \<open>noTransaction\<close> ends with the separator the body is split on, so
  no piece of any body equals it and the branch of \<open>Up\<close> that runs statements outside a
  transaction is never taken: a body that starts with \<open>NO_TRANSACTION;\<close> goes to
  \<open>runTransaction\<close>, with \<open>NO_TRANSACTION\<close> as its first statement.
\<close>

theorem noTransaction_never_first:
  "noTransaction \<notin> set (strings_Split body (CHR '';'')) \<and>
   strings_Split ''NO_TRANSACTION;CREATE INDEX CONCURRENTLY idx ON foo (bar)'' (CHR '';'') =
     [''NO_TRANSACTION'', ''CREATE INDEX CONCURRENTLY idx ON foo (bar)''] \<and>
   Up_files sem (\<lambda>name. Some ''NO_TRANSACTION;CREATE INDEX CONCURRENTLY idx ON foo (bar)'')
       [migration] w =
     (case runTransaction sem
             [''NO_TRANSACTION'', ''CREATE INDEX CONCURRENTLY idx ON foo (bar)''] w of
        (Some err, w1) \<Rightarrow> (Some err, w1)
      | (None, w1) \<Rightarrow> (None, w1))"
proof -
  have sp: "strings_Split ''NO_TRANSACTION;CREATE INDEX CONCURRENTLY idx ON foo (bar)'' (CHR '';'') =
     [''NO_TRANSACTION'', ''CREATE INDEX CONCURRENTLY idx ON foo (bar)'']"
    by simp
  show ?thesis
    unfolding Up_files_Cons sp using noTransaction_not_piece [of body]
    by (simp split: prod.splits option.splits)
qed

subsection \<open>Atomicity of a transactional unit\<close>

text \<open>
  C7. If a statement of a transactional unit fails, the unit is rolled back: whenever
  \<open>runTransaction\<close> returns an error the committed database, version table included,
  is what it was before; and if a statement sent to the transaction failed, the error
  returned is that statement's and the last call made is \<open>Rollback\<close>.
\<close>

theorem runTransaction_rolls_back:
  "(fst (runTransaction sem statements w) \<noteq> None \<longrightarrow>
      committed (snd (runTransaction sem statements w)) = committed w) \<and>
   ((TxExec s, Some e) \<in> set (emitted w (snd (runTransaction sem statements w))) \<longrightarrow>
      fst (runTransaction sem statements w) = Some e \<and>
      fst (last (trace (snd (runTransaction sem statements w)))) = Rollback)"
proof -
  obtain r w' where run: "runTransaction sem statements w = (r, w')"
    by (cases "runTransaction sem statements w") auto
  note d = runTransaction_D [OF run]
  obtain evs where T: "trace w' = trace w @ evs \<and>
      (r = None \<longrightarrow> (\<exists>x. evs = (Begin, None) # map (\<lambda>s. (TxExec s, None)) statements @ [(Commit, x)])) \<and>
      (\<forall>c x. (c, x) \<in> set evs \<longrightarrow>
         c = Begin \<or> c = Commit \<or> c = Rollback \<or> (\<exists>s \<in> set statements. c = TxExec s)) \<and>
      (\<forall>c e. (c, Some e) \<in> set evs \<and> (c = Begin \<or> (\<exists>s. c = TxExec s)) \<longrightarrow> r = Some e) \<and>
      (\<forall>s e. (TxExec s, Some e) \<in> set evs \<longrightarrow> fst (last evs) = Rollback) \<and>
      (\<forall>e. r = Some e \<longrightarrow> (\<exists>c. (c, Some e) \<in> set evs \<and> (c = Begin \<or> (\<exists>s. c = TxExec s)))) \<and>
      (\<not> faulty w \<and> statements \<noteq> [] \<longrightarrow>
         (Begin, None) \<in> set evs \<and> (\<exists>x. (TxExec (hd statements), x) \<in> set evs))"
    using d(4) by (rule exE)
  note tr = T [THEN conjunct1]
  note rep = T [THEN conjunct2, THEN conjunct2, THEN conjunct2, THEN conjunct1]
  note rb = T [THEN conjunct2, THEN conjunct2, THEN conjunct2, THEN conjunct2, THEN conjunct1]
  have em: "emitted w w' = evs" using tr by (rule emitted_append)
  have "(TxExec s, Some e) \<in> set evs \<longrightarrow> r = Some e \<and> fst (last (trace w')) = Rollback"
  proof
    assume m: "(TxExec s, Some e) \<in> set evs"
    then have "evs \<noteq> []" by auto
    then have "last (trace w') = last evs" using tr by simp
    moreover have "r = Some e" using rep m by blast
    moreover have "fst (last evs) = Rollback" using rb m by blast
    ultimately show "r = Some e \<and> fst (last (trace w')) = Rollback" by simp
  qed
  with d(3) em run show ?thesis by simp
qed

theorem runTransaction_rolls_back_witness:
  "fst (runTransaction sql_once [''CREATE TABLE a (x int)'', ''CREATE TABLE a (x int)'', ''CREATE TABLE b (y int)'']
          (opened (Some [], [''CREATE TABLE z (id int)'']) [])) \<noteq> None
   \<and> (TxExec ''CREATE TABLE a (x int)'', Some (StatementRejected ''CREATE TABLE a (x int)''))
       \<in> set (emitted (opened (Some [], [''CREATE TABLE z (id int)'']) [])
            (snd (runTransaction sql_once [''CREATE TABLE a (x int)'', ''CREATE TABLE a (x int)'', ''CREATE TABLE b (y int)'']
                   (opened (Some [], [''CREATE TABLE z (id int)'']) []))))
   \<and> committed (snd (runTransaction sql_once [''CREATE TABLE a (x int)'', ''CREATE TABLE a (x int)'', ''CREATE TABLE b (y int)'']
          (opened (Some [], [''CREATE TABLE z (id int)'']) []))) = (Some [], [''CREATE TABLE z (id int)''])
   \<and> fst (runTransaction sql_once [''CREATE TABLE a (x int)'', ''CREATE TABLE a (x int)'', ''CREATE TABLE b (y int)'']
          (opened (Some [], [''CREATE TABLE z (id int)'']) [])) = Some (StatementRejected ''CREATE TABLE a (x int)'')
   \<and> fst (last (trace (snd (runTransaction sql_once [''CREATE TABLE a (x int)'', ''CREATE TABLE a (x int)'', ''CREATE TABLE b (y int)'']
          (opened (Some [], [''CREATE TABLE z (id int)'']) []))))) = Rollback"
proof -
  let ?w = "opened (Some [], [''CREATE TABLE z (id int)'']) [] :: string list conn"
  let ?ss = "[''CREATE TABLE a (x int)'', ''CREATE TABLE a (x int)'', ''CREATE TABLE b (y int)'']"
  have h1: "fst (runTransaction sql_once ?ss ?w) \<noteq> None"
    by code_simp
  have h2: "(TxExec ''CREATE TABLE a (x int)'', Some (StatementRejected ''CREATE TABLE a (x int)''))
       \<in> set (emitted ?w (snd (runTransaction sql_once ?ss ?w)))"
    by code_simp
  have c: "committed ?w = (Some [], [''CREATE TABLE z (id int)''])"
    by (simp add: opened_def)
  show ?thesis
    using h1 h2 c runTransaction_rolls_back [of sql_once ?ss ?w "''CREATE TABLE a (x int)''"
        "StatementRejected ''CREATE TABLE a (x int)''"]
    by simp
qed

subsection \<open>The legacy bridge\<close>

text \<open>
  C8, as amended. On a connection without faults, with a legacy table of a single row:
  if the value of the row scans into a Go \<open>int\<close> other than 189, \<open>Up\<close> fails with
  the error that carries 189 and that value, after the ensure-table statement and the
  two reads only, and the database is unchanged; if it scans to 189,
  \<open>checkLegacyVersion\<close> drops the table and returns 1510262030; if it does not scan
  (text that is no number, a number out of the range of \<open>int\<close>, \<open>NULL\<close>),
  \<open>checkLegacyVersion\<close> returns \<open>-1, nil\<close> as if there were no legacy version. The
  claim adds that units below the floor are treated as already applied; \<open>Up\<close>
  discards the floor, and in the last two cases goes on to run every file of
  \<open>migrationFiles\<close>.
\<close>

theorem legacy_bridge:
  assumes "faults w = []" and "fst (committed w) = Some [cell]"
  shows "(\<forall>v. Scan_int (Inr cell) = Inr v \<and> v \<noteq> 189 \<longrightarrow>
            Up sem asset self w =
              (Some (MustUpgrade 189 v),
               w\<lparr>trace := trace w @ [(Exec createTableSql, None), (QueryRow existsSql, None),
                                     (QueryRow selectVersionSql, None)]\<rparr>)) \<and>
         (Scan_int (Inr cell) = Inr 189 \<longrightarrow>
            checkLegacyVersion sem w =
              ((1510262030, None),
               w\<lparr>committed := (None, snd (committed w)),
                 trace := trace w @ [(QueryRow existsSql, None), (QueryRow selectVersionSql, None),
                                     (Exec dropTableSql, None)]\<rparr>) \<and>
            Up sem asset self w =
              Up_files sem asset (migrationFiles self)
                (w\<lparr>committed := (None, snd (committed w)),
                   trace := trace w @ [(Exec createTableSql, None), (QueryRow existsSql, None),
                                       (QueryRow selectVersionSql, None),
                                       (Exec dropTableSql, None)]\<rparr>)) \<and>
         (\<forall>e. Scan_int (Inr cell) = Inl e \<longrightarrow>
            checkLegacyVersion sem w =
              ((- 1, None),
               w\<lparr>trace := trace w @ [(QueryRow existsSql, None),
                                     (QueryRow selectVersionSql, None)]\<rparr>) \<and>
            Up sem asset self w =
              Up_files sem asset (migrationFiles self)
                (w\<lparr>trace := trace w @ [(Exec createTableSql, None), (QueryRow existsSql, None),
                                       (QueryRow selectVersionSql, None)]\<rparr>))"
proof (intro conjI allI impI)
  fix v
  assume "Scan_int (Inr cell) = Inr v \<and> v \<noteq> 189"
  then have "Scan_int (Inr cell) = Inr v" and "v \<noteq> oldMigrationLastVersion"
    by (simp_all add: oldMigrationLastVersion_def)
  from Up_legacy_mismatch [OF assms(1) assms(2) this, of sem asset self]
  show "Up sem asset self w =
              (Some (MustUpgrade 189 v),
               w\<lparr>trace := trace w @ [(Exec createTableSql, None), (QueryRow existsSql, None),
                                     (QueryRow selectVersionSql, None)]\<rparr>)"
    by (simp add: oldMigrationLastVersion_def)
next
  assume "Scan_int (Inr cell) = Inr 189"
  then have s: "Scan_int (Inr cell) = Inr oldMigrationLastVersion"
    by (simp add: oldMigrationLastVersion_def)
  from checkLegacyVersion_cutover [OF assms(1) assms(2) s, of sem]
  show "checkLegacyVersion sem w =
              ((1510262030, None),
               w\<lparr>committed := (None, snd (committed w)),
                 trace := trace w @ [(QueryRow existsSql, None), (QueryRow selectVersionSql, None),
                                     (Exec dropTableSql, None)]\<rparr>)"
    by (simp add: newMigrationStartVersion_def)
  from Up_legacy_cutover [OF assms(1) assms(2) s, of sem asset self]
  show "Up sem asset self w =
              Up_files sem asset (migrationFiles self)
                (w\<lparr>committed := (None, snd (committed w)),
                   trace := trace w @ [(Exec createTableSql, None), (QueryRow existsSql, None),
                                       (QueryRow selectVersionSql, None),
                                       (Exec dropTableSql, None)]\<rparr>)" .
next
  fix e
  assume s: "Scan_int (Inr cell) = Inl e"
  from checkLegacyVersion_unread [OF assms(1) assms(2) s, of sem]
  show "checkLegacyVersion sem w =
              ((- 1, None),
               w\<lparr>trace := trace w @ [(QueryRow existsSql, None),
                                     (QueryRow selectVersionSql, None)]\<rparr>)" .
  from Up_legacy_unread [OF assms(1) assms(2) s, of sem asset self]
  show "Up sem asset self w =
              Up_files sem asset (migrationFiles self)
                (w\<lparr>trace := trace w @ [(Exec createTableSql, None), (QueryRow existsSql, None),
                                       (QueryRow selectVersionSql, None)]\<rparr>)" .
qed

theorem legacy_bridge_witness:
  "faults (opened (Some [VInt 188], []) [] :: string list conn) = []
   \<and> fst (committed (opened (Some [VInt 188], []) [] :: string list conn)) = Some [VInt 188]
   \<and> Scan_int (Inr (VInt 188)) = Inr 188 \<and> (188 :: int) \<noteq> 189
   \<and> Up sql_once (map_of [(''100_create_teams.up.sql'', ''CREATE TABLE teams (id serial)'')])
        (catalogue [(''100_create_teams.up.sql'', ''CREATE TABLE teams (id serial)'')])
        (opened (Some [VInt 188], []) []) =
      (Some (MustUpgrade 189 188),
       \<lparr>committed = (Some [VInt 188], []),
        trace = [(Exec createTableSql, None), (QueryRow existsSql, None),
                 (QueryRow selectVersionSql, None)],
        faults = []\<rparr>)
   \<and> faults (opened (Some [VInt 189], []) [] :: string list conn) = []
   \<and> fst (committed (opened (Some [VInt 189], []) [] :: string list conn)) = Some [VInt 189]
   \<and> Scan_int (Inr (VInt 189)) = Inr 189
   \<and> checkLegacyVersion sql_once (opened (Some [VInt 189], []) []) =
      ((1510262030, None),
       \<lparr>committed = (None, []),
        trace = [(QueryRow existsSql, None), (QueryRow selectVersionSql, None),
                 (Exec dropTableSql, None)],
        faults = []\<rparr>)
   \<and> faults (opened (Some [VText ''9223372036854775808''], []) [] :: string list conn) = []
   \<and> fst (committed (opened (Some [VText ''9223372036854775808''], []) [] :: string list conn))
       = Some [VText ''9223372036854775808'']
   \<and> Scan_int (Inr (VText ''9223372036854775808'')) = Inl ScanError
   \<and> checkLegacyVersion sql_once (opened (Some [VText ''9223372036854775808''], []) []) =
      ((- 1, None),
       \<lparr>committed = (Some [VText ''9223372036854775808''], []),
        trace = [(QueryRow existsSql, None), (QueryRow selectVersionSql, None)],
        faults = []\<rparr>)"
proof -
  let ?a = "map_of [(''100_create_teams.up.sql'', ''CREATE TABLE teams (id serial)'')]"
  let ?m = "catalogue [(''100_create_teams.up.sql'', ''CREATE TABLE teams (id serial)'')]"
  let ?w1 = "opened (Some [VInt 188], []) [] :: string list conn"
  let ?w2 = "opened (Some [VInt 189], []) [] :: string list conn"
  let ?w3 = "opened (Some [VText ''9223372036854775808''], []) [] :: string list conn"
  have a1: "faults ?w1 = []" and b1: "fst (committed ?w1) = Some [VInt 188]"
    and a2: "faults ?w2 = []" and b2: "fst (committed ?w2) = Some [VInt 189]"
    and a3: "faults ?w3 = []" and b3: "fst (committed ?w3) = Some [VText ''9223372036854775808'']"
    by (simp_all add: opened_def)
  have s1: "Scan_int (Inr (VInt 188)) = Inr 188" and s2: "Scan_int (Inr (VInt 189)) = Inr 189"
    by (simp_all add: Scan_int_def)
  have s3: "Scan_int (Inr (VText ''9223372036854775808'')) = Inl ScanError"
    by code_simp
  have n: "(188 :: int) \<noteq> 189" by simp
  from legacy_bridge [OF a1 b1, of sql_once ?a ?m] s1 n
  have c1: "Up sql_once ?a ?m ?w1 =
      (Some (MustUpgrade 189 188),
       ?w1\<lparr>trace := trace ?w1 @ [(Exec createTableSql, None), (QueryRow existsSql, None),
                                 (QueryRow selectVersionSql, None)]\<rparr>)"
    by blast
  from legacy_bridge [OF a2 b2, of sql_once ?a ?m] s2
  have c2: "checkLegacyVersion sql_once ?w2 =
      ((1510262030, None),
       ?w2\<lparr>committed := (None, snd (committed ?w2)),
            trace := trace ?w2 @ [(QueryRow existsSql, None), (QueryRow selectVersionSql, None),
                                  (Exec dropTableSql, None)]\<rparr>)"
    by blast
  from legacy_bridge [OF a3 b3, of sql_once ?a ?m] s3
  have c3: "checkLegacyVersion sql_once ?w3 =
      ((- 1, None),
       ?w3\<lparr>trace := trace ?w3 @ [(QueryRow existsSql, None),
                                  (QueryRow selectVersionSql, None)]\<rparr>)"
    by blast
  show ?thesis
    using a1 b1 s1 n a2 b2 s2 a3 b3 s3 c1 c2 c3 by (simp add: opened_def)
qed

text \<open>
  C8 as stated fails: on a database at legacy version 189, the unit with key 100,
  which is below the floor, is executed; and on a legacy table whose row is text that
  is no number, which does not equal 189, \<open>Up\<close> does not fail: it runs the unit and
  returns no error.
\<close>

theorem Up_discards_legacy_floor:
  "fst (fst (checkLegacyVersion sql_once (opened (Some [VInt 189], []) []))) = 1510262030
   \<and> unit_key ''100_create_teams.up.sql'' < 1510262030
   \<and> fst (Up sql_once
            (map_of [(''100_create_teams.up.sql'', ''CREATE TABLE teams (id serial)'')])
            (catalogue [(''100_create_teams.up.sql'', ''CREATE TABLE teams (id serial)'')])
            (opened (Some [VInt 189], []) [])) = None
   \<and> (TxExec ''CREATE TABLE teams (id serial)'', None)
       \<in> set (trace (snd (Up sql_once
            (map_of [(''100_create_teams.up.sql'', ''CREATE TABLE teams (id serial)'')])
            (catalogue [(''100_create_teams.up.sql'', ''CREATE TABLE teams (id serial)'')])
            (opened (Some [VInt 189], []) []))))
   \<and> Up sql_once
        (map_of [(''100_create_teams.up.sql'', ''CREATE TABLE teams (id serial)'')])
        (catalogue [(''100_create_teams.up.sql'', ''CREATE TABLE teams (id serial)'')])
        (opened (Some [VText ''not a version''], []) []) =
      (None,
       \<lparr>committed = (Some [VText ''not a version''], [''CREATE TABLE teams (id serial)'']),
        trace = [(Exec createTableSql, None), (QueryRow existsSql, None),
                 (QueryRow selectVersionSql, None), (Begin, None),
                 (TxExec ''CREATE TABLE teams (id serial)'', None), (Commit, None)],
        faults = []\<rparr>)"
  by code_simp

subsection \<open>Errors that reach the caller\<close>




subsection \<open>The first statement is in bounds\<close>

text \<open>
  C10. For every input string, the empty one included, the split of \<open>ParseFile\<close> has at
  least one element: the read of \<open>statements[0]\<close> in \<open>Up\<close> is always in bounds, and
  \<open>Up\<close> never ends in the index panic.
\<close>

theorem ParseFile_first_statement_in_bounds:
  "strings_Split contents (CHR '';'') \<noteq> [] \<and>
   (\<forall>statements. ParseFile asset migration = Inr statements \<longrightarrow> statements \<noteq> []) \<and>
   fst (Up sem asset self w) \<noteq> Some IndexOutOfRange"
proof -
  obtain r w' where "Up sem asset self w = (r, w')" by (cases "Up sem asset self w") auto
  then have "fst (Up sem asset self w) \<noteq> Some IndexOutOfRange"
    using Up_D(2) by fastforce
  then show ?thesis
    by (auto simp: ParseFile_def strings_Split_nonempty split: option.splits)
qed

theorem ParseFile_first_statement_in_bounds_witness:
  "ParseFile (map_of [(''1_empty.up.sql'', '''')]) ''1_empty.up.sql'' = Inr ['''']
   \<and> [''''] \<noteq> ([] :: string list)
   \<and> fst (Up sql_once (map_of [(''1_empty.up.sql'', '''')]) (catalogue [(''1_empty.up.sql'', '''')])
          (opened (None, []) [])) \<noteq> Some IndexOutOfRange"
proof -
  have h: "ParseFile (map_of [(''1_empty.up.sql'', '''')]) ''1_empty.up.sql'' = Inr ['''']"
    by (simp add: ParseFile_def)
  show ?thesis
    using h ParseFile_first_statement_in_bounds
      [of "''''" "map_of [(''1_empty.up.sql'', '''')]" "''1_empty.up.sql''" sql_once
          "catalogue [(''1_empty.up.sql'', '''')]" "opened (None, []) []"]
    by simp
qed

end
